theory Spec2Isabelle
  imports Main
begin

section \<open>The Go library functions the cache layer calls\<close>

text \<open>
  The package \<^verbatim>\<open>httpcache\<close> (file \<^verbatim>\<open>httpcache.go\<close>, the revision with
  \<^verbatim>\<open>GetWithValidator\<close>) is embedded below. What it calls from the Go standard
  library is written out where the behaviour is fixed text processing
  (\<^verbatim>\<open>strings.TrimSpace\<close>, \<^verbatim>\<open>strings.Index\<close>, \<^verbatim>\<open>time.ParseDuration\<close>,
  \<^verbatim>\<open>time.Time.Sub\<close>) and taken as a parameter where it is an outside system
  (regular expression compilation, the file system, the key-value store, the
  HTTP transport, the clock, SHA-256 and the entry serialisation).

  Strings are byte strings, durations are nanoseconds, a \<^verbatim>\<open>time.Time\<close> is the
  number of nanoseconds since the zero time (January 1, year 1, UTC).
\<close>

type_synonym Duration = int
type_synonym Time = int
type_synonym go_error = string

definition Second :: Duration where
  "Second = 1000000000"

definition Minute :: Duration where
  "Minute = 60 * Second"

definition Hour :: Duration where
  "Hour = 60 * Minute"

definition minDuration :: Duration where
  "minDuration = - (2 ^ 63)"

definition maxDuration :: Duration where
  "maxDuration = 2 ^ 63 - 1"

subsection \<open>Package strings\<close>

text \<open>
  \<^verbatim>\<open>unicode.IsSpace\<close> holds of the runes U+0009..U+000D, U+0020, U+0085, U+00A0,
  U+1680, U+2000..U+200A, U+2028, U+2029, U+202F, U+205F and U+3000. The list gives
  their UTF-8 encodings; a byte sequence that is not valid UTF-8 decodes to
  \<^verbatim>\<open>utf8.RuneError\<close> of width 1, which is not white space.
\<close>

definition spaceRunes :: "string list" where
  "spaceRunes =
    [[CHR 0x09], [CHR 0x0A], [CHR 0x0B], [CHR 0x0C], [CHR 0x0D], [CHR 0x20],
     [CHR 0xC2, CHR 0x85], [CHR 0xC2, CHR 0xA0], [CHR 0xE1, CHR 0x9A, CHR 0x80],
     [CHR 0xE2, CHR 0x80, CHR 0x80], [CHR 0xE2, CHR 0x80, CHR 0x81],
     [CHR 0xE2, CHR 0x80, CHR 0x82], [CHR 0xE2, CHR 0x80, CHR 0x83],
     [CHR 0xE2, CHR 0x80, CHR 0x84], [CHR 0xE2, CHR 0x80, CHR 0x85],
     [CHR 0xE2, CHR 0x80, CHR 0x86], [CHR 0xE2, CHR 0x80, CHR 0x87],
     [CHR 0xE2, CHR 0x80, CHR 0x88], [CHR 0xE2, CHR 0x80, CHR 0x89],
     [CHR 0xE2, CHR 0x80, CHR 0x8A], [CHR 0xE2, CHR 0x80, CHR 0xA8],
     [CHR 0xE2, CHR 0x80, CHR 0xA9], [CHR 0xE2, CHR 0x80, CHR 0xAF],
     [CHR 0xE2, CHR 0x81, CHR 0x9F], [CHR 0xE3, CHR 0x80, CHR 0x80]]"

text \<open>The width of the rune of \<open>rs\<close> that \<open>s\<close> starts with, 0 when it starts with none.\<close>

definition leadingWidth :: "string list \<Rightarrow> string \<Rightarrow> nat" where
  "leadingWidth rs s =
    (case filter (\<lambda>r. take (length r) s = r) rs of [] \<Rightarrow> 0 | r # _ \<Rightarrow> length r)"

function stripLeading :: "string list \<Rightarrow> string \<Rightarrow> string" where
  "stripLeading rs s =
    (if s = [] \<or> leadingWidth rs s = 0 then s
     else stripLeading rs (drop (leadingWidth rs s) s))"
  by pat_completeness auto
termination
  by (relation "measure (\<lambda>(rs, s). length s)") auto

text \<open>
  \<^verbatim>\<open>strings.TrimSpace\<close>: all leading white-space runes are cut (decoding forwards),
  then all trailing ones (decoding backwards with \<^verbatim>\<open>utf8.DecodeLastRuneInString\<close>,
  which yields a white-space rune exactly when the string ends with its encoding).
\<close>

definition strings_TrimSpace :: "string \<Rightarrow> string" where
  "strings_TrimSpace s =
    rev (stripLeading (map rev spaceRunes) (rev (stripLeading spaceRunes s)))"

definition strings_HasPrefix :: "string \<Rightarrow> string \<Rightarrow> bool" where
  "strings_HasPrefix s p = (length s \<ge> length p \<and> take (length p) s = p)"

text \<open>
  \<^verbatim>\<open>strings.Index\<close> and \<^verbatim>\<open>strings.LastIndex\<close> for a one-byte separator;
  \<open>None\<close> is Go's \<open>-1\<close>.
\<close>

definition strings_Index :: "string \<Rightarrow> char \<Rightarrow> nat option" where
  "strings_Index s c =
    (if c \<in> set s then Some (length (takeWhile (\<lambda>x. x \<noteq> c) s)) else None)"

definition strings_LastIndex :: "string \<Rightarrow> char \<Rightarrow> nat option" where
  "strings_LastIndex s c =
    (if c \<in> set s then Some (length s - 1 - length (takeWhile (\<lambda>x. x \<noteq> c) (rev s)))
     else None)"

subsection \<open>time.ParseDuration\<close>

text \<open>
  \<^verbatim>\<open>time.ParseDuration\<close> of the Go standard library (file \<^verbatim>\<open>time/format.go\<close>),
  which policy loading calls on the text after the last \<^verbatim>\<open>=\<close>. The accumulators
  are \<^verbatim>\<open>uint64\<close>: they are integers here, with additions taken modulo
  \<open>2 ^ 64\<close>. The one floating-point
  step, \<^verbatim>\<open>uint64(float64(f) * (float64(unit) / scale))\<close>, is the parameter \<open>fr\<close>.
\<close>

datatype duration_error = InvalidDuration | MissingUnit | UnknownUnit string

definition isDigit :: "char \<Rightarrow> bool" where
  "isDigit c = (c \<in> set ''0123456789'')"

definition digitVal :: "char \<Rightarrow> int" where
  "digitVal c = of_char c - 48"

fun leadingInt :: "int \<Rightarrow> string \<Rightarrow> (int \<times> string) option" where
  "leadingInt x [] = Some (x, [])"
| "leadingInt x (c # s) =
    (if \<not> isDigit c then Some (x, c # s)
     else if x > 2 ^ 63 div 10 then None
     else if x * 10 + digitVal c > 2 ^ 63 then None
     else leadingInt (x * 10 + digitVal c) s)"

fun leadingFraction :: "int \<Rightarrow> int \<Rightarrow> bool \<Rightarrow> string \<Rightarrow> int \<times> int \<times> string" where
  "leadingFraction x scale overflow [] = (x, scale, [])"
| "leadingFraction x scale overflow (c # s) =
    (if \<not> isDigit c then (x, scale, c # s)
     else if overflow then leadingFraction x scale overflow s
     else if x > (2 ^ 63 - 1) div 10 then leadingFraction x scale True s
     else if x * 10 + digitVal c > 2 ^ 63 then leadingFraction x scale True s
     else leadingFraction (x * 10 + digitVal c) (scale * 10) overflow s)"

definition unitMap :: "string \<Rightarrow> int option" where
  "unitMap u =
    (if u = ''ns'' then Some 1
     else if u = ''us'' then Some 1000
     else if u = [CHR 0xC2, CHR 0xB5, CHR ''s''] then Some 1000
     else if u = [CHR 0xCE, CHR 0xBC, CHR ''s''] then Some 1000
     else if u = ''ms'' then Some 1000000
     else if u = ''s'' then Some 1000000000
     else if u = ''m'' then Some 60000000000
     else if u = ''h'' then Some 3600000000000
     else None)"

definition unitChar :: "char \<Rightarrow> bool" where
  "unitChar c = (\<not> (c = CHR ''.'' \<or> isDigit c))"

text \<open>
  One round of the loop of \<^verbatim>\<open>ParseDuration\<close> on the non-empty rest \<open>s\<close>: a number
  with an optional fraction, then a unit. The result is the value in nanoseconds
  and what is left of the string.
\<close>

definition durationTerm ::
  "(int \<Rightarrow> int \<Rightarrow> int \<Rightarrow> int) \<Rightarrow> string \<Rightarrow> duration_error + (int \<times> string)" where
  "durationTerm fr s =
    (if \<not> (take 1 s = ''.'' \<or> (\<exists>c \<in> set (take 1 s). isDigit c)) then Inl InvalidDuration
     else case leadingInt 0 s of
       None \<Rightarrow> Inl InvalidDuration
     | Some (v, s1) \<Rightarrow>
        (let pre = (length s \<noteq> length s1);
             (f, scale, s2) =
               (if take 1 s1 = ''.'' then leadingFraction 0 1 False (drop 1 s1)
                else (0, 1, s1));
             post = (take 1 s1 = ''.'' \<and> length (drop 1 s1) \<noteq> length s2);
             u = takeWhile unitChar s2;
             s3 = dropWhile unitChar s2
         in if \<not> pre \<and> \<not> post then Inl InvalidDuration
            else if u = [] then Inl MissingUnit
            else case unitMap u of
              None \<Rightarrow> Inl (UnknownUnit u)
            | Some unit \<Rightarrow>
               (if v > 2 ^ 63 div unit then Inl InvalidDuration
                else if f > 0 then
                  (if (v * unit + fr f unit scale) mod 2 ^ 64 > 2 ^ 63
                   then Inl InvalidDuration
                   else Inr ((v * unit + fr f unit scale) mod 2 ^ 64, s3))
                else Inr (v * unit, s3))))"

lemma leadingInt_length:
  "leadingInt x s = Some (v, r) \<Longrightarrow> length r \<le> length s"
  by (induction x s rule: leadingInt.induct) (auto split: if_splits)

lemma leadingFraction_length:
  "leadingFraction x sc ov s = (f, sc', r) \<Longrightarrow> length r \<le> length s"
  by (induction x sc ov s rule: leadingFraction.induct) (auto split: if_splits)

lemma dropWhile_shorter:
  "takeWhile P s \<noteq> [] \<Longrightarrow> length (dropWhile P s) < length s"
  by (induction s) (auto simp: less_Suc_eq_le length_dropWhile_le split: if_splits)

lemma durationTerm_shorter:
  assumes "durationTerm fr s = Inr (v, r)"
  shows "length r < length s"
proof -
  from assms obtain v0 s1 where li: "leadingInt 0 s = Some (v0, s1)"
    by (auto simp: durationTerm_def split: if_splits option.splits)
  obtain f sc s2 where fr:
    "(if take 1 s1 = ''.'' then leadingFraction 0 1 False (drop 1 s1) else (0, 1, s1))
      = (f, sc, s2)"
    by (metis prod_cases3)
  have l1: "length s1 \<le> length s"
    using li by (rule leadingInt_length)
  have l2: "length s2 \<le> length s1"
    using fr leadingFraction_length [of 0 1 False "drop 1 s1" f sc s2]
    by (auto split: if_splits)
  from assms li fr have "takeWhile unitChar s2 \<noteq> []" and "r = dropWhile unitChar s2"
    by (auto simp: durationTerm_def Let_def split: if_splits option.splits)
  then have "length r < length s2"
    using dropWhile_shorter by blast
  with l1 l2 show ?thesis by linarith
qed

function durationLoop ::
  "(int \<Rightarrow> int \<Rightarrow> int \<Rightarrow> int) \<Rightarrow> int \<Rightarrow> string \<Rightarrow> duration_error + int" where
  "durationLoop fr d s =
    (if s = [] then Inr d
     else case durationTerm fr s of
       Inl e \<Rightarrow> Inl e
     | Inr (v, rest) \<Rightarrow>
        (if (d + v) mod 2 ^ 64 > 2 ^ 63 then Inl InvalidDuration
         else durationLoop fr ((d + v) mod 2 ^ 64) rest))"
  by pat_completeness auto
termination
  by (relation "measure (\<lambda>(fr, d, s). length s)") (auto dest: durationTerm_shorter)

definition ParseDuration ::
  "(int \<Rightarrow> int \<Rightarrow> int \<Rightarrow> int) \<Rightarrow> string \<Rightarrow> duration_error + Duration" where
  "ParseDuration fr orig =
    (let neg = (take 1 orig = ''-'');
         s = (if take 1 orig = ''-'' \<or> take 1 orig = ''+'' then drop 1 orig else orig)
     in if s = ''0'' then Inr 0
        else if s = [] then Inl InvalidDuration
        else case durationLoop fr 0 s of
          Inl e \<Rightarrow> Inl e
        | Inr d \<Rightarrow>
           (if neg then Inr (- d)
            else if d > 2 ^ 63 - 1 then Inl InvalidDuration
            else Inr d))"

subsection \<open>time.Time\<close>

text \<open>
  \<^verbatim>\<open>t.Sub(u)\<close> is the difference as a \<^verbatim>\<open>Duration\<close>; a difference outside the
  range of \<^verbatim>\<open>int64\<close> nanoseconds gives the largest or smallest duration.
  The time read from the store carries no monotonic clock reading, so \<^verbatim>\<open>Sub\<close>
  and \<^verbatim>\<open>After\<close> compare wall-clock instants.
\<close>

definition time_IsZero :: "Time \<Rightarrow> bool" where
  "time_IsZero t = (t = 0)"

definition time_After :: "Time \<Rightarrow> Time \<Rightarrow> bool" where
  "time_After t u = (t > u)"

definition time_Add :: "Time \<Rightarrow> Duration \<Rightarrow> Time" where
  "time_Add t d = t + d"

definition time_Sub :: "Time \<Rightarrow> Time \<Rightarrow> Duration" where
  "time_Sub t u =
    (if t - u < minDuration then minDuration
     else if t - u > maxDuration then maxDuration
     else t - u)"

section \<open>Data model\<close>

record CacheEntry =
  Data :: string
  URL :: string
  FinalURL :: string
  CrawledAt :: Time
  ExpiresAt :: Time

text \<open>
  A compiled \<^verbatim>\<open>*regexp.Regexp\<close> is used through \<^verbatim>\<open>MatchString\<close> only, so a
  pattern is the set of strings in which it finds a match.
\<close>

record CachePolicy =
  Pattern :: "string \<Rightarrow> bool"
  TTL :: Duration

record Cache =
  Policies :: "CachePolicy list"

record HTTPClient =
  cache :: Cache

section \<open>Policy loading\<close>

text \<open>
  What \<^verbatim>\<open>os.Open\<close> and the \<^verbatim>\<open>bufio.Scanner\<close> give for a file name: no such
  file, another error, or the lines \<^verbatim>\<open>scanner.Text()\<close> returns in order together
  with the value of \<^verbatim>\<open>scanner.Err()\<close> after the last of them.
\<close>

datatype open_result =
  NotExist
| OpenError go_error
| Opened "string list" "go_error option"

record loader_env =
  regexp_Compile :: "string \<Rightarrow> go_error + (string \<Rightarrow> bool)"
  float_frac :: "int \<Rightarrow> int \<Rightarrow> int \<Rightarrow> int"
  os_Open :: "string \<Rightarrow> open_result"

datatype load_error =
  CompilePanic go_error
| OpenFailed go_error
| InvalidFormat string
| InvalidRegex go_error
| InvalidDurationText duration_error
| ReadFailed go_error

text \<open>
  The text processing of one scanned line, up to the two fields: the line is
  skipped (blank or a comment), has no \<^verbatim>\<open>=\<close> after its inline comment is cut, or
  splits at the last \<^verbatim>\<open>=\<close> into pattern and duration.
\<close>

datatype line_fields = Skipped | NoSeparator string | Fields string string

definition splitLine :: "string \<Rightarrow> line_fields" where
  "splitLine text =
    (let line = strings_TrimSpace text in
     if line = [] \<or> strings_HasPrefix line ''#'' then Skipped
     else
       (let line = (case strings_Index line (CHR ''#'') of
                      Some idx \<Rightarrow> strings_TrimSpace (take idx line)
                    | None \<Rightarrow> line)
        in case strings_LastIndex line (CHR ''='') of
             None \<Rightarrow> NoSeparator line
           | Some idx \<Rightarrow>
               Fields (strings_TrimSpace (take idx line))
                      (strings_TrimSpace (drop (idx + 1) line))))"

fun scanLoop ::
  "loader_env \<Rightarrow> string list \<Rightarrow> CachePolicy list \<Rightarrow> load_error + CachePolicy list" where
  "scanLoop le [] policies = Inr policies"
| "scanLoop le (text # rest) policies =
    (case splitLine text of
       Skipped \<Rightarrow> scanLoop le rest policies
     | NoSeparator line \<Rightarrow> Inl (InvalidFormat line)
     | Fields pattern duration \<Rightarrow>
        (case regexp_Compile le pattern of
           Inl err \<Rightarrow> Inl (InvalidRegex err)
         | Inr compiledPattern \<Rightarrow>
            (case ParseDuration (float_frac le) duration of
               Inl err \<Rightarrow> Inl (InvalidDurationText err)
             | Inr parsedDuration \<Rightarrow>
                 scanLoop le rest
                   (policies @ [\<lparr>Pattern = compiledPattern, TTL = parsedDuration\<rparr>]))))"

text \<open>
  \<^verbatim>\<open>regexp.MustCompile(".*")\<close> panics when the pattern does not compile; the
  panic is the result \<open>CompilePanic\<close>.
\<close>

definition LoadPoliciesFromFile ::
  "loader_env \<Rightarrow> string \<Rightarrow> load_error + CachePolicy list" where
  "LoadPoliciesFromFile le filename =
    (case regexp_Compile le ''.*'' of
       Inl err \<Rightarrow> Inl (CompilePanic err)
     | Inr catchAll \<Rightarrow>
        (let defaultPolicy = \<lparr>Pattern = catchAll, TTL = 10 * Minute\<rparr> in
         if filename = [] then Inr [defaultPolicy]
         else case os_Open le filename of
           NotExist \<Rightarrow> Inr [defaultPolicy]
         | OpenError err \<Rightarrow> Inl (OpenFailed err)
         | Opened lines scanErr \<Rightarrow>
            (case scanLoop le lines [] of
               Inl err \<Rightarrow> Inl err
             | Inr policies \<Rightarrow>
                (case scanErr of
                   Some err \<Rightarrow> Inl (ReadFailed err)
                 | None \<Rightarrow> Inr (policies @ [defaultPolicy])))))"

text \<open>The lines the scanner yields for a file name; none when no file is read.\<close>

definition scannedLines :: "loader_env \<Rightarrow> string \<Rightarrow> string list" where
  "scannedLines le filename =
    (if filename = [] then []
     else case os_Open le filename of Opened lines scanErr \<Rightarrow> lines | _ \<Rightarrow> [])"

text \<open>The duration fields of the lines that are not skipped, in line order.\<close>

definition durationFields :: "string list \<Rightarrow> string list" where
  "durationFields lines =
    concat (map (\<lambda>ln. case splitLine ln of
                        Fields pattern duration \<Rightarrow> [duration]
                      | _ \<Rightarrow> []) lines)"

section \<open>TTL resolution\<close>

fun firstMatch :: "CachePolicy list \<Rightarrow> string \<Rightarrow> Duration" where
  "firstMatch [] url = 0"
| "firstMatch (policy # rest) url =
    (if Pattern policy url then TTL policy else firstMatch rest url)"

definition GetTTL :: "Cache \<Rightarrow> string \<Rightarrow> Duration" where
  "GetTTL c url = firstMatch (Policies c) url"

section \<open>The store, the transport and the clock\<close>

text \<open>
  The outbound exchange of one request is \<^verbatim>\<open>http.NewRequest\<close>, \<^verbatim>\<open>client.Do\<close>
  and \<^verbatim>\<open>io.ReadAll\<close>; it fails at one of the three steps (the final URL is
  known from the second on) or yields the final URL and the body.
\<close>

datatype response =
  RequestError go_error
| DoError go_error
| ReadError string go_error
| Response string string

text \<open>The calls made to the store and to the transport, oldest first.\<close>

datatype event =
  StoreGet string
| StorePut string string
| StoreDelete string
| HttpGet string response

text \<open>
  The outside of the cache layer. The answers of the clock, of the store and of
  the transport may change from call to call: they are indexed by the number of
  calls made to the store and the transport before.
\<close>

record env =
  sha256_hex :: "string \<Rightarrow> string"
  ObjectToBytes :: "CacheEntry \<Rightarrow> go_error + string"
  BytesToObject :: "string \<Rightarrow> go_error + CacheEntry"
  NewLevelStore :: "string \<Rightarrow> go_error + (string \<rightharpoonup> string)"
  clock :: "nat \<Rightarrow> Time"
  storeErr :: "nat \<Rightarrow> go_error option"
  transport :: "nat \<Rightarrow> string \<Rightarrow> response"

record world =
  db :: "string \<rightharpoonup> string"
  trace :: "event list"

definition time_Now :: "env \<Rightarrow> world \<Rightarrow> Time" where
  "time_Now env w = clock env (length (trace w))"

definition Store_Get :: "env \<Rightarrow> world \<Rightarrow> string \<Rightarrow> (go_error + string option) \<times> world" where
  "Store_Get env w key =
    ((case storeErr env (length (trace w)) of
        Some err \<Rightarrow> Inl err
      | None \<Rightarrow> Inr (db w key)),
     w\<lparr>trace := trace w @ [StoreGet key]\<rparr>)"

definition Store_Put :: "env \<Rightarrow> world \<Rightarrow> string \<Rightarrow> string \<Rightarrow> go_error option \<times> world" where
  "Store_Put env w key val =
    (case storeErr env (length (trace w)) of
       Some err \<Rightarrow> (Some err, w\<lparr>trace := trace w @ [StorePut key val]\<rparr>)
     | None \<Rightarrow> (None, w\<lparr>db := (db w)(key \<mapsto> val), trace := trace w @ [StorePut key val]\<rparr>))"

definition Store_Delete :: "env \<Rightarrow> world \<Rightarrow> string \<Rightarrow> go_error option \<times> world" where
  "Store_Delete env w key =
    (case storeErr env (length (trace w)) of
       Some err \<Rightarrow> (Some err, w\<lparr>trace := trace w @ [StoreDelete key]\<rparr>)
     | None \<Rightarrow> (None, w\<lparr>db := (db w)(key := None), trace := trace w @ [StoreDelete key]\<rparr>))"

definition httpExchange :: "env \<Rightarrow> world \<Rightarrow> string \<Rightarrow> response \<times> world" where
  "httpExchange env w url =
    (transport env (length (trace w)) url,
     w\<lparr>trace := trace w @ [HttpGet url (transport env (length (trace w)) url)]\<rparr>)"

section \<open>The cache\<close>

definition hashKey :: "env \<Rightarrow> string \<Rightarrow> string" where
  "hashKey env url = sha256_hex env url"

text \<open>
  \<^verbatim>\<open>Cache.Get\<close> returns \<^verbatim>\<open>(entry.Data, entry.FinalURL, true)\<close>, here \<open>Some\<close> of
  the pair, or \<^verbatim>\<open>(nil, "", false)\<close>, here \<open>None\<close>.
\<close>

definition isExpired :: "Cache \<Rightarrow> Time \<Rightarrow> CacheEntry \<Rightarrow> bool" where
  "isExpired c now entry =
    (if \<not> time_IsZero (CrawledAt entry)
     then time_Sub now (CrawledAt entry) > GetTTL c (URL entry)
     else time_After now (ExpiresAt entry))"

definition Cache_Get ::
  "env \<Rightarrow> Cache \<Rightarrow> world \<Rightarrow> string \<Rightarrow> (string \<times> string) option \<times> world" where
  "Cache_Get env c w key =
    (case Store_Get env w key of
       (Inl err, w1) \<Rightarrow> (None, w1)
     | (Inr None, w1) \<Rightarrow> (None, w1)
     | (Inr (Some val), w1) \<Rightarrow>
        (case BytesToObject env val of
           Inl err \<Rightarrow> (None, w1)
         | Inr entry \<Rightarrow>
            (if isExpired c (time_Now env w1) entry
             then (None, snd (Store_Delete env w1 key))
             else (Some (Data entry, FinalURL entry), w1))))"

definition Cache_Set ::
  "env \<Rightarrow> world \<Rightarrow> string \<Rightarrow> string \<Rightarrow> string \<Rightarrow> string \<Rightarrow> Duration \<Rightarrow> world" where
  "Cache_Set env w key data url finalURL ttl =
    (let now = time_Now env w;
         entry = \<lparr>Data = data, URL = url, FinalURL = finalURL,
                  CrawledAt = now, ExpiresAt = time_Add now ttl\<rparr>
     in case ObjectToBytes env entry of
          Inl err \<Rightarrow> w
        | Inr encoded \<Rightarrow> snd (Store_Put env w key encoded))"

definition Cache_Delete :: "env \<Rightarrow> world \<Rightarrow> string \<Rightarrow> go_error option \<times> world" where
  "Cache_Delete env w key = Store_Delete env w key"

section \<open>The client\<close>

text \<open>
  A \<^verbatim>\<open>ContentValidator\<close> is a predicate on the bytes or \<^verbatim>\<open>nil\<close>;
  \<open>accepts\<close> is \<^verbatim>\<open>validator == nil || validator(value)\<close>.
\<close>

type_synonym ContentValidator = "(string \<Rightarrow> bool) option"

definition accepts :: "ContentValidator \<Rightarrow> string \<Rightarrow> bool" where
  "accepts validator val = (case validator of None \<Rightarrow> True | Some v \<Rightarrow> v val)"

text \<open>
  The result of \<^verbatim>\<open>GetWithValidator\<close> is Go's triple \<^verbatim>\<open>([]byte, string, error)\<close>
  with \<open>None\<close> for \<^verbatim>\<open>nil\<close>, next to the world after the call.
\<close>

definition GetWithValidator ::
  "env \<Rightarrow> HTTPClient \<Rightarrow> world \<Rightarrow> string \<Rightarrow> ContentValidator
    \<Rightarrow> (string option \<times> string \<times> go_error option) \<times> world" where
  "GetWithValidator env hc w url validator =
    (let key = hashKey env url;
         ttl = GetTTL (cache hc) url;
         (hit, w1) =
           (if ttl > 0 then
              (case Cache_Get env (cache hc) w key of
                 (Some (val, finalURL), w') \<Rightarrow>
                   (if accepts validator val then (Some (val, finalURL), w')
                    else (None, snd (Cache_Delete env w' key)))
               | (None, w') \<Rightarrow> (None, w'))
            else (None, w))
     in case hit of
          Some (val, finalURL) \<Rightarrow> ((Some val, finalURL, None), w1)
        | None \<Rightarrow>
           (case httpExchange env w1 url of
              (RequestError err, w2) \<Rightarrow> ((None, [], Some err), w2)
            | (DoError err, w2) \<Rightarrow> ((None, [], Some err), w2)
            | (ReadError finalURL err, w2) \<Rightarrow> ((None, finalURL, Some err), w2)
            | (Response finalURL body, w2) \<Rightarrow>
               ((Some body, finalURL, None),
                (if accepts validator body \<and> ttl > 0
                 then Cache_Set env w2 key body url finalURL ttl
                 else w2))))"

definition Get ::
  "env \<Rightarrow> HTTPClient \<Rightarrow> world \<Rightarrow> string \<Rightarrow> (string option \<times> go_error option) \<times> world" where
  "Get env hc w url =
    (case GetWithValidator env hc w url None of
       ((data, finalURL, err), w') \<Rightarrow> ((data, err), w'))"

definition GetWithFinalURL ::
  "env \<Rightarrow> HTTPClient \<Rightarrow> world \<Rightarrow> string
    \<Rightarrow> (string option \<times> string \<times> go_error option) \<times> world" where
  "GetWithFinalURL env hc w url = GetWithValidator env hc w url None"

definition NewClient ::
  "env \<Rightarrow> string \<Rightarrow> CachePolicy list \<Rightarrow> go_error + (HTTPClient \<times> world)" where
  "NewClient env cacheDir policies =
    (if cacheDir = [] then Inl ''cache directory is required''
     else case NewLevelStore env (cacheDir @ ''/data'') of
       Inl err \<Rightarrow> Inl (''failed to initialize cache: '' @ err)
     | Inr contents \<Rightarrow>
         Inr (\<lparr>cache = \<lparr>Policies = policies\<rparr>\<rparr>, \<lparr>db = contents, trace = []\<rparr>))"

definition Fetch ::
  "env \<Rightarrow> HTTPClient \<Rightarrow> world \<Rightarrow> string \<Rightarrow> ContentValidator
    \<Rightarrow> (string option \<times> go_error option) \<times> world" where
  "Fetch env hc w url validator =
    (case httpExchange env w url of
       (RequestError err, w1) \<Rightarrow> ((None, Some err), w1)
     | (DoError err, w1) \<Rightarrow> ((None, Some err), w1)
     | (ReadError finalURL err, w1) \<Rightarrow> ((None, Some err), w1)
     | (Response finalURL body, w1) \<Rightarrow>
        (let ttl = GetTTL (cache hc) url in
         ((Some body, None),
          (if ttl > 0 \<and> accepts validator body
           then Cache_Set env w1 (hashKey env url) body url [] ttl
           else w1))))"

definition DeleteURL :: "env \<Rightarrow> HTTPClient \<Rightarrow> world \<Rightarrow> string \<Rightarrow> go_error option \<times> world" where
  "DeleteURL env hc w url = Cache_Delete env w (hashKey env url)"

definition FetchWithFinalURL ::
  "env \<Rightarrow> HTTPClient \<Rightarrow> world \<Rightarrow> string
    \<Rightarrow> (string option \<times> string \<times> go_error option) \<times> world" where
  "FetchWithFinalURL env hc w url =
    (case httpExchange env w url of
       (RequestError err, w1) \<Rightarrow> ((None, [], Some err), w1)
     | (DoError err, w1) \<Rightarrow> ((None, [], Some err), w1)
     | (ReadError finalURL err, w1) \<Rightarrow> ((None, finalURL, Some err), w1)
     | (Response finalURL body, w1) \<Rightarrow>
        (let ttl = GetTTL (cache hc) url in
         ((Some body, finalURL, None),
          (if ttl > 0
           then Cache_Set env w1 (hashKey env url) body url finalURL ttl
           else w1))))"

section \<open>Reading the trace\<close>

text \<open>
  What a call did to the outside is the tail it added to the trace. The
  predicates pick the kinds of events; \<open>responseError\<close> is the error of a failed
  exchange.
\<close>

definition newEvents :: "world \<Rightarrow> world \<Rightarrow> event list" where
  "newEvents w w' = drop (length (trace w)) (trace w')"

fun isHttpGet :: "event \<Rightarrow> bool" where
  "isHttpGet (HttpGet url r) = True"
| "isHttpGet e = False"

fun isStoreGet :: "event \<Rightarrow> bool" where
  "isStoreGet (StoreGet key) = True"
| "isStoreGet e = False"

fun isStorePut :: "event \<Rightarrow> bool" where
  "isStorePut (StorePut key val) = True"
| "isStorePut e = False"

text \<open>The URLs requested from the transport, in order.\<close>

fun fetched :: "event list \<Rightarrow> string list" where
  "fetched [] = []"
| "fetched (HttpGet url r # es) = url # fetched es"
| "fetched (e # es) = fetched es"

fun responseError :: "response \<Rightarrow> go_error option" where
  "responseError (RequestError err) = Some err"
| "responseError (DoError err) = Some err"
| "responseError (ReadError finalURL err) = Some err"
| "responseError (Response finalURL body) = None"

text \<open>
  The store holds, under the key of \<open>url\<close>, bytes that decode to \<open>entry\<close>; the read
  of the next call succeeds and finds the entry not expired at the time it reads
  the clock; and the TTL of \<open>url\<close> is positive.
\<close>

definition cachedFresh :: "env \<Rightarrow> HTTPClient \<Rightarrow> world \<Rightarrow> string \<Rightarrow> CacheEntry \<Rightarrow> bool" where
  "cachedFresh env hc w url entry =
    (0 < GetTTL (cache hc) url \<and>
     storeErr env (length (trace w)) = None \<and>
     (case db w (hashKey env url) of
        None \<Rightarrow> False
      | Some stored \<Rightarrow> BytesToObject env stored = Inr entry) \<and>
     \<not> isExpired (cache hc) (clock env (Suc (length (trace w)))) entry)"

text \<open>
  Nothing usable is stored under the key: no bytes at all, or bytes that do not
  decode.
\<close>

definition noEntry :: "env \<Rightarrow> world \<Rightarrow> string \<Rightarrow> bool" where
  "noEntry env w key =
    (case db w key of None \<Rightarrow> True | Some stored \<Rightarrow> isl (BytesToObject env stored))"

section \<open>A concrete outside for the examples\<close>

text \<open>
  The theorems below hold for every regular-expression library, file system,
  store, transport and clock. The examples instantiate them with a small
  regular-expression matcher (literal bytes, \<^verbatim>\<open>.\<close>, escapes and \<^verbatim>\<open>*\<close>, searched
  at every offset as \<^verbatim>\<open>MatchString\<close> does).
\<close>

datatype atom = AnyChar | Lit char

fun atomOk :: "atom \<Rightarrow> char \<Rightarrow> bool" where
  "atomOk AnyChar c = (c \<noteq> CHR 0x0A)"
| "atomOk (Lit d) c = (c = d)"

fun matchHere :: "(atom \<times> bool) list \<Rightarrow> string \<Rightarrow> bool" where
  "matchHere [] s = True"
| "matchHere ((a, False) # r) [] = False"
| "matchHere ((a, False) # r) (c # s) = (atomOk a c \<and> matchHere r s)"
| "matchHere ((a, True) # r) [] = matchHere r []"
| "matchHere ((a, True) # r) (c # s) =
    (matchHere r (c # s) \<or> (atomOk a c \<and> matchHere ((a, True) # r) s))"

fun matchString :: "(atom \<times> bool) list \<Rightarrow> string \<Rightarrow> bool" where
  "matchString r [] = matchHere r []"
| "matchString r (c # s) = (matchHere r (c # s) \<or> matchString r s)"

definition backslash :: char where
  "backslash = CHR 0x5C"

text \<open>The tokens of a pattern: an atom, or \<open>None\<close> for a star.\<close>

fun tokens :: "string \<Rightarrow> atom option list option" where
  "tokens [] = Some []"
| "tokens [c] =
    (if c \<in> set (backslash # ''+?()[]{}|^$'') then None
     else if c = CHR ''*'' then Some [None]
     else Some [Some (if c = CHR ''.'' then AnyChar else Lit c)])"
| "tokens (c # d # s) =
    (if c = backslash then map_option (Cons (Some (Lit d))) (tokens s)
     else if c \<in> set ''+?()[]{}|^$'' then None
     else if c = CHR ''*'' then map_option (Cons None) (tokens (d # s))
     else map_option (Cons (Some (if c = CHR ''.'' then AnyChar else Lit c))) (tokens (d # s)))"

fun starred :: "atom option list \<Rightarrow> (atom \<times> bool) list option" where
  "starred [] = Some []"
| "starred (None # ts) = None"
| "starred (Some a # None # ts) = map_option (Cons (a, True)) (starred ts)"
| "starred (Some a # ts) = map_option (Cons (a, False)) (starred ts)"

definition miniCompile :: "string \<Rightarrow> go_error + (string \<Rightarrow> bool)" where
  "miniCompile pattern =
    (case Option.bind (tokens pattern) starred of
       None \<Rightarrow> Inl (''error parsing regexp: '' @ pattern)
     | Some r \<Rightarrow> Inr (matchString r))"

text \<open>
  The policy file of the test \<^verbatim>\<open>TestCachePolicy\<close>, two lines of the repository's
  sample policy file (one with a duration in days), and a file with a negative
  duration.
\<close>

definition lineExample :: string where
  "lineExample = ''.*'' @ backslash # ''.example'' @ backslash # ''.com=5m''"

definition lineTest :: string where
  "lineTest = ''.*'' @ backslash # ''.test'' @ backslash # ''.com=1s''"

definition lineStatic :: string where
  "lineStatic = ''.*'' @ backslash # ''/static'' @ backslash # ''/.*=12h''"

definition lineArchive :: string where
  "lineArchive = ''.*'' @ backslash # ''/news'' @ backslash # ''/archive'' @ backslash #
     ''/.*=7d           # Archived news''"

definition lineNegative :: string where
  "lineNegative = ''.*'' @ backslash # ''.example'' @ backslash # ''.com=-5m''"

definition testFiles :: "string \<Rightarrow> open_result" where
  "testFiles name =
    (if name = ''policies.txt''
     then Opened [[], ''# Test policy file'', lineExample, lineTest] None
     else if name = ''sample.txt''
     then Opened [lineStatic, lineArchive] None
     else if name = ''negative.txt''
     then Opened [lineNegative] None
     else NotExist)"

definition testLoader :: loader_env where
  "testLoader =
    \<lparr>regexp_Compile = miniCompile,
     float_frac = (\<lambda>f unit scale. f * unit div scale),
     os_Open = testFiles\<rparr>"

text \<open>
  A server that answers one URL after a redirect, a store whose operations never
  fail and that holds one entry fetched at time 1000, and a clock that reads
  2000 and later. The client caches every URL for ten minutes.
\<close>

definition testEntry :: CacheEntry where
  "testEntry =
    \<lparr>Data = ''test response'', URL = ''http://srv/page'', FinalURL = ''http://srv/final'',
     CrawledAt = 1000, ExpiresAt = 1000 + 10 * Minute\<rparr>"

definition testEnv :: env where
  "testEnv =
    \<lparr>sha256_hex = (\<lambda>url. ''key:'' @ url),
     ObjectToBytes = (\<lambda>entry. Inr (''entry:'' @ Data entry)),
     BytesToObject = (\<lambda>bytes. if bytes = ''stored'' then Inr testEntry else Inl ''invalid character''),
     NewLevelStore = (\<lambda>dir. Inr Map.empty),
     clock = (\<lambda>n. 2000 + int n),
     storeErr = (\<lambda>n. None),
     transport = (\<lambda>n url. if url = ''http://srv/page''
                            then Response ''http://srv/final'' ''fresh response''
                            else DoError ''no such host'')\<rparr>"

definition testClient :: HTTPClient where
  "testClient = \<lparr>cache = \<lparr>Policies = [\<lparr>Pattern = (\<lambda>url. True), TTL = 10 * Minute\<rparr>]\<rparr>\<rparr>"

definition testWorld :: world where
  "testWorld = \<lparr>db = [''key:http://srv/page'' \<mapsto> ''stored''], trace = []\<rparr>"

definition emptyWorld :: world where
  "emptyWorld = \<lparr>db = Map.empty, trace = []\<rparr>"

text \<open>
  A cache whose one policy keeps entries for 500 nanoseconds, a validator that
  accepts one body only, and the same outside with a transport that is down.
\<close>

definition shortCache :: Cache where
  "shortCache = \<lparr>Policies = [\<lparr>Pattern = (\<lambda>url. True), TTL = 500\<rparr>]\<rparr>"

definition wantsExpected :: ContentValidator where
  "wantsExpected = Some (\<lambda>body. body = ''expected'')"

definition downEnv :: env where
  "downEnv = testEnv\<lparr>transport := (\<lambda>n url. DoError ''connection refused'')\<rparr>"

section \<open>Facts about TTL resolution and policy loading\<close>

lemma firstMatch_index:
  "\<exists>p \<in> set ps. Pattern p url \<Longrightarrow>
   \<exists>i<length ps. Pattern (ps ! i) url \<and> (\<forall>j<i. \<not> Pattern (ps ! j) url) \<and>
     firstMatch ps url = TTL (ps ! i)"
proof (induction ps)
  case Nil
  then show ?case by simp
next
  case (Cons p ps)
  show ?case
  proof (cases "Pattern p url")
    case True
    then have "Pattern ((p # ps) ! 0) url \<and> (\<forall>j<0. \<not> Pattern ((p # ps) ! j) url) \<and>
      firstMatch (p # ps) url = TTL ((p # ps) ! 0)" by simp
    then show ?thesis by blast
  next
    case False
    with Cons.prems have "\<exists>q \<in> set ps. Pattern q url" by auto
    from Cons.IH [OF this] obtain i where i: "i < length ps" "Pattern (ps ! i) url"
      "\<forall>j<i. \<not> Pattern (ps ! j) url" "firstMatch ps url = TTL (ps ! i)" by blast
    have "\<forall>j<Suc i. \<not> Pattern ((p # ps) ! j) url"
      using False i(3) by (auto simp: less_Suc_eq_0_disj)
    with i False have "Suc i < length (p # ps) \<and> Pattern ((p # ps) ! Suc i) url \<and>
      (\<forall>j<Suc i. \<not> Pattern ((p # ps) ! j) url) \<and>
      firstMatch (p # ps) url = TTL ((p # ps) ! Suc i)" by simp
    then show ?thesis by blast
  qed
qed

lemma firstMatch_none:
  "\<forall>p \<in> set ps. \<not> Pattern p url \<Longrightarrow> firstMatch ps url = 0"
  by (induction ps) auto

lemma LoadPoliciesFromFile_default_last:
  assumes "LoadPoliciesFromFile le filename = Inr policies"
    and "regexp_Compile le ''.*'' = Inr catchAll"
  shows "policies \<noteq> [] \<and> last policies = \<lparr>Pattern = catchAll, TTL = 10 * Minute\<rparr>"
  using assms
  by (auto simp: LoadPoliciesFromFile_def Let_def
      split: if_splits open_result.splits sum.splits option.splits)

lemma matchString_catchAll: "matchString [(AnyChar, True)] u"
  by (cases u) auto

lemma miniCompile_catchAll: "miniCompile ''.*'' = Inr (matchString [(AnyChar, True)])"
  by (simp add: miniCompile_def backslash_def)

text \<open>The definitions that evaluate policy loading on a concrete file.\<close>

lemmas load_eval = LoadPoliciesFromFile_def testLoader_def testFiles_def miniCompile_def backslash_def Let_def
     lineExample_def lineTest_def lineStatic_def lineArchive_def lineNegative_def
     splitLine_def strings_TrimSpace_def strings_HasPrefix_def strings_Index_def strings_LastIndex_def
     leadingWidth_def spaceRunes_def ParseDuration_def durationTerm_def unitMap_def unitChar_def isDigit_def digitVal_def Minute_def Second_def GetTTL_def

text \<open>
  Claim C3. For every URL string, the empty one included, and every policy list
  that \<^verbatim>\<open>LoadPoliciesFromFile\<close> returns, \<^verbatim>\<open>GetTTL\<close> returns the TTL of the first
  policy in list order whose pattern finds a match in the URL, and there always is
  such a policy: the list ends with the catch-all policy of 10 minutes. That the
  pattern \<^verbatim>\<open>.*\<close> compiles and finds a match in every string is the one fact used
  about the regular-expression library.
\<close>

theorem C3_GetTTL_first_match_of_loaded_policies:
  assumes "regexp_Compile le ''.*'' = Inr catchAll"
    and "\<forall>u. catchAll u"
    and "LoadPoliciesFromFile le filename = Inr policies"
  shows "policies \<noteq> [] \<and> last policies = \<lparr>Pattern = catchAll, TTL = 10 * Minute\<rparr> \<and>
    (\<exists>i<length policies. Pattern (policies ! i) url \<and>
       (\<forall>j<i. \<not> Pattern (policies ! j) url) \<and>
       GetTTL \<lparr>Policies = policies\<rparr> url = TTL (policies ! i))"
proof -
  have last: "policies \<noteq> [] \<and> last policies = \<lparr>Pattern = catchAll, TTL = 10 * Minute\<rparr>"
    using assms(3) assms(1) by (rule LoadPoliciesFromFile_default_last)
  then have "last policies \<in> set policies" and "Pattern (last policies) url"
    using assms(2) last_in_set [of policies] by simp_all
  then have "\<exists>p \<in> set policies. Pattern p url" by blast
  from firstMatch_index [OF this] last show ?thesis
    by (simp add: GetTTL_def)
qed

text \<open>
  The policy file of the test \<^verbatim>\<open>TestCachePolicy\<close>: the URL of the test's second
  case resolves to one second, the TTL of the second line.
\<close>

theorem C3_witness:
  "\<exists>ps. LoadPoliciesFromFile testLoader ''policies.txt'' = Inr ps \<and>
     map TTL ps = [300000000000, 1000000000, 600000000000] \<and>
     GetTTL \<lparr>Policies = ps\<rparr> ''http://api.test.com/test'' = Second \<and>
     ps \<noteq> [] \<and> last ps = \<lparr>Pattern = matchString [(AnyChar, True)], TTL = 10 * Minute\<rparr> \<and>
     (\<exists>i<length ps. Pattern (ps ! i) ''http://api.test.com/test'' \<and>
        (\<forall>j<i. \<not> Pattern (ps ! j) ''http://api.test.com/test'') \<and>
        GetTTL \<lparr>Policies = ps\<rparr> ''http://api.test.com/test'' = TTL (ps ! i))"
proof -
  have "\<exists>ps. LoadPoliciesFromFile testLoader ''policies.txt'' = Inr ps \<and>
     map TTL ps = [300000000000, 1000000000, 600000000000] \<and>
     GetTTL \<lparr>Policies = ps\<rparr> ''http://api.test.com/test'' = Second"
    by (simp add: load_eval)
  then obtain ps where load: "LoadPoliciesFromFile testLoader ''policies.txt'' = Inr ps"
    and ttls: "map TTL ps = [300000000000, 1000000000, 600000000000]"
    and ttl: "GetTTL \<lparr>Policies = ps\<rparr> ''http://api.test.com/test'' = Second"
    by (elim exE conjE)
  have compile: "regexp_Compile testLoader ''.*'' = Inr (matchString [(AnyChar, True)])"
    by (simp add: testLoader_def miniCompile_catchAll)
  have total: "\<forall>u. matchString [(AnyChar, True)] u"
    by (simp add: matchString_catchAll)
  note c3 = C3_GetTTL_first_match_of_loaded_policies [OF compile total load, of "''http://api.test.com/test''"]
  show ?thesis
    by (rule exI [of _ ps]) (intro conjI load ttls ttl conjunct1 [OF c3]
        conjunct1 [OF conjunct2 [OF c3]] conjunct2 [OF conjunct2 [OF c3]])
qed

section \<open>Durations of loaded policies\<close>

lemma durationLoop_range:
  "durationLoop fr d s = Inr r \<Longrightarrow> 0 \<le> d \<Longrightarrow> d \<le> 2 ^ 63 \<Longrightarrow> 0 \<le> r \<and> r \<le> 2 ^ 63"
proof (induction fr d s rule: durationLoop.induct)
  case (1 fr d s)
  show ?case
  proof (cases "s = []")
    case True
    with "1.prems" show ?thesis by simp
  next
    case False
    with "1.prems"(1) obtain v rest where tm: "durationTerm fr s = Inr (v, rest)"
      and small: "\<not> (d + v) mod 2 ^ 64 > 2 ^ 63"
      and rec: "durationLoop fr ((d + v) mod 2 ^ 64) rest = Inr r"
      by (auto split: sum.splits if_splits)
    have "0 \<le> (d + v) mod 2 ^ 64" by simp
    moreover have "(d + v) mod 2 ^ 64 \<le> 2 ^ 63" using small by simp
    ultimately show ?thesis
      using "1.IH" [OF False tm refl small rec] by simp
  qed
qed

lemma ParseDuration_loop:
  assumes "ParseDuration fr s = Inr d"
  shows "d = 0 \<or> (\<exists>r. durationLoop fr 0
            (if take 1 s = ''-'' \<or> take 1 s = ''+'' then drop 1 s else s) = Inr r \<and>
          (if take 1 s = ''-'' then d = - r else d = r \<and> r \<le> 2 ^ 63 - 1))"
proof -
  define s' where "s' = (if take 1 s = ''-'' \<or> take 1 s = ''+'' then drop 1 s else s)"
  have eq: "ParseDuration fr s =
    (if s' = ''0'' then Inr 0
        else if s' = [] then Inl InvalidDuration
        else case durationLoop fr 0 s' of
          Inl e \<Rightarrow> Inl e
        | Inr d \<Rightarrow>
           (if take 1 s = ''-'' then Inr (- d)
            else if d > 2 ^ 63 - 1 then Inl InvalidDuration
            else Inr d))"
    unfolding ParseDuration_def s'_def Let_def by (rule refl)
  show ?thesis
  proof (cases "s' = ''0''")
    case True
    with assms eq have "d = 0" by simp
    then show ?thesis by simp
  next
    case False
    with assms eq obtain r where loop: "durationLoop fr 0 s' = Inr r"
      by (cases "durationLoop fr 0 s'") (simp_all split: if_splits)
    with assms eq False have "if take 1 s = ''-'' then d = - r else d = r \<and> r \<le> 2 ^ 63 - 1"
      by (simp split: if_splits)
    with loop show ?thesis unfolding s'_def by blast
  qed
qed

lemma ParseDuration_range:
  assumes "ParseDuration fr s = Inr d"
  shows "minDuration \<le> d \<and> d \<le> maxDuration"
proof -
  from ParseDuration_loop [OF assms] show ?thesis
  proof
    assume "d = 0"
    then show ?thesis by (simp add: minDuration_def maxDuration_def)
  next
    assume "\<exists>r. durationLoop fr 0
            (if take 1 s = ''-'' \<or> take 1 s = ''+'' then drop 1 s else s) = Inr r \<and>
          (if take 1 s = ''-'' then d = - r else d = r \<and> r \<le> 2 ^ 63 - 1)"
    then obtain r where loop: "durationLoop fr 0
            (if take 1 s = ''-'' \<or> take 1 s = ''+'' then drop 1 s else s) = Inr r"
      and d: "if take 1 s = ''-'' then d = - r else d = r \<and> r \<le> 2 ^ 63 - 1"
      by (elim exE conjE)
    from durationLoop_range [OF loop] have "0 \<le> r \<and> r \<le> 2 ^ 63" by simp
    with d show ?thesis
      by (cases "take 1 s = ''-''") (simp_all add: minDuration_def maxDuration_def)
  qed
qed

lemma ParseDuration_unsigned:
  assumes "ParseDuration fr s = Inr d" and "take 1 s \<noteq> ''-''"
  shows "0 \<le> d"
proof -
  from ParseDuration_loop [OF assms(1)] show ?thesis
  proof
    assume "d = 0"
    then show ?thesis by simp
  next
    assume "\<exists>r. durationLoop fr 0
            (if take 1 s = ''-'' \<or> take 1 s = ''+'' then drop 1 s else s) = Inr r \<and>
          (if take 1 s = ''-'' then d = - r else d = r \<and> r \<le> 2 ^ 63 - 1)"
    then obtain r where loop: "durationLoop fr 0
            (if take 1 s = ''-'' \<or> take 1 s = ''+'' then drop 1 s else s) = Inr r"
      and d: "if take 1 s = ''-'' then d = - r else d = r \<and> r \<le> 2 ^ 63 - 1"
      by (elim exE conjE)
    from durationLoop_range [OF loop] have "0 \<le> r" by simp
    with d assms(2) show ?thesis by simp
  qed
qed

lemma scanLoop_TTL:
  assumes "scanLoop le lines acc = Inr policies"
    and "\<forall>p \<in> set acc. Q (TTL p)"
    and "\<And>ln pattern duration d. ln \<in> set lines \<Longrightarrow> splitLine ln = Fields pattern duration \<Longrightarrow>
           ParseDuration (float_frac le) duration = Inr d \<Longrightarrow> Q d"
  shows "\<forall>p \<in> set policies. Q (TTL p)"
  using assms
proof (induction lines arbitrary: acc)
  case Nil
  then show ?case by simp
next
  case (Cons ln rest)
  have step: "Q d" if "l \<in> set rest" "splitLine l = Fields p du"
    "ParseDuration (float_frac le) du = Inr d" for l p du d
    using Cons.prems(3) [of l p du d] that by simp
  show ?case
  proof (cases "splitLine ln")
    case Skipped
    with Cons.prems(1) have "scanLoop le rest acc = Inr policies" by simp
    from this Cons.prems(2) step show ?thesis by (rule Cons.IH)
  next
    case (NoSeparator line)
    with Cons.prems(1) show ?thesis by simp
  next
    case (Fields pattern duration)
    with Cons.prems(1) obtain rx d where "regexp_Compile le pattern = Inr rx"
      and parsed: "ParseDuration (float_frac le) duration = Inr d"
      and rec: "scanLoop le rest (acc @ [\<lparr>Pattern = rx, TTL = d\<rparr>]) = Inr policies"
      by (auto split: sum.splits)
    have "Q d" using Cons.prems(3) [of ln pattern duration d] Fields parsed by simp
    with Cons.prems(2) have "\<forall>p \<in> set (acc @ [\<lparr>Pattern = rx, TTL = d\<rparr>]). Q (TTL p)" by simp
    from rec this step show ?thesis by (rule Cons.IH)
  qed
qed

lemma LoadPoliciesFromFile_cases:
  assumes "LoadPoliciesFromFile le filename = Inr policies"
  shows "\<exists>catchAll. regexp_Compile le ''.*'' = Inr catchAll \<and>
    ((scannedLines le filename = [] \<and> policies = [\<lparr>Pattern = catchAll, TTL = 10 * Minute\<rparr>]) \<or>
     (\<exists>ps. scanLoop le (scannedLines le filename) [] = Inr ps \<and>
        policies = ps @ [\<lparr>Pattern = catchAll, TTL = 10 * Minute\<rparr>]))"
proof -
  from assms obtain catchAll where c: "regexp_Compile le ''.*'' = Inr catchAll"
    by (cases "regexp_Compile le ''.*''") (simp_all add: LoadPoliciesFromFile_def)
  show ?thesis
  proof (cases "filename = []")
    case True
    with assms c show ?thesis
      by (simp add: LoadPoliciesFromFile_def scannedLines_def)
  next
    case False
    show ?thesis
    proof (cases "os_Open le filename")
      case NotExist
      with assms c False show ?thesis
        by (simp add: LoadPoliciesFromFile_def scannedLines_def)
    next
      case (OpenError e)
      with assms c False show ?thesis
        by (simp add: LoadPoliciesFromFile_def)
    next
      case (Opened lines scanErr)
      with assms c False obtain ps where "scanLoop le lines [] = Inr ps"
        and "policies = ps @ [\<lparr>Pattern = catchAll, TTL = 10 * Minute\<rparr>]"
        by (cases "scanLoop le lines []"; cases scanErr)
          (simp_all add: LoadPoliciesFromFile_def)
      with c Opened False show ?thesis
        by (simp add: scannedLines_def)
    qed
  qed
qed

lemma LoadPoliciesFromFile_TTL:
  assumes "LoadPoliciesFromFile le filename = Inr policies"
    and "Q (10 * Minute)"
    and "\<And>ln pattern duration d. ln \<in> set (scannedLines le filename) \<Longrightarrow>
           splitLine ln = Fields pattern duration \<Longrightarrow>
           ParseDuration (float_frac le) duration = Inr d \<Longrightarrow> Q d"
  shows "\<forall>p \<in> set policies. Q (TTL p)"
proof -
  from LoadPoliciesFromFile_cases [OF assms(1)] obtain catchAll where
    alt: "(scannedLines le filename = [] \<and> policies = [\<lparr>Pattern = catchAll, TTL = 10 * Minute\<rparr>]) \<or>
     (\<exists>ps. scanLoop le (scannedLines le filename) [] = Inr ps \<and>
        policies = ps @ [\<lparr>Pattern = catchAll, TTL = 10 * Minute\<rparr>])"
    by (elim exE conjE)
  then show ?thesis
  proof
    assume "scannedLines le filename = [] \<and> policies = [\<lparr>Pattern = catchAll, TTL = 10 * Minute\<rparr>]"
    with assms(2) show ?thesis by simp
  next
    assume "\<exists>ps. scanLoop le (scannedLines le filename) [] = Inr ps \<and>
        policies = ps @ [\<lparr>Pattern = catchAll, TTL = 10 * Minute\<rparr>]"
    then obtain ps where scan: "scanLoop le (scannedLines le filename) [] = Inr ps"
      and policies: "policies = ps @ [\<lparr>Pattern = catchAll, TTL = 10 * Minute\<rparr>]"
      by (elim exE conjE)
    have "\<forall>p \<in> set ps. Q (TTL p)"
      by (rule scanLoop_TTL [OF scan]) (simp, rule assms(3))
    with policies assms(2) show ?thesis by simp
  qed
qed

lemma splitLine_examples:
  "splitLine [] = Skipped"
  "splitLine ''# Test policy file'' = Skipped"
  "splitLine lineExample = Fields (''.*'' @ backslash # ''.example'' @ backslash # ''.com'') ''5m''"
  "splitLine lineTest = Fields (''.*'' @ backslash # ''.test'' @ backslash # ''.com'') ''1s''"
  "splitLine lineStatic = Fields (''.*'' @ backslash # ''/static'' @ backslash # ''/.*'') ''12h''"
  "splitLine lineArchive =
     Fields (''.*'' @ backslash # ''/news'' @ backslash # ''/archive'' @ backslash # ''/.*'') ''7d''"
  "splitLine lineNegative = Fields (''.*'' @ backslash # ''.example'' @ backslash # ''.com'') ''-5m''"
  by (simp_all add: load_eval)

lemma scannedLines_examples:
  "scannedLines testLoader ''policies.txt'' = [[], ''# Test policy file'', lineExample, lineTest]"
  "scannedLines testLoader ''sample.txt'' = [lineStatic, lineArchive]"
  "scannedLines testLoader ''negative.txt'' = [lineNegative]"
  by (simp_all add: scannedLines_def testLoader_def testFiles_def)

lemma ParseDuration_signed:
  assumes "ParseDuration fr s = Inr d" and "take 1 s = ''-''"
  shows "d \<le> 0"
proof -
  from ParseDuration_loop [OF assms(1)] show ?thesis
  proof
    assume "d = 0"
    then show ?thesis by simp
  next
    assume "\<exists>r. durationLoop fr 0
            (if take 1 s = ''-'' \<or> take 1 s = ''+'' then drop 1 s else s) = Inr r \<and>
          (if take 1 s = ''-'' then d = - r else d = r \<and> r \<le> 2 ^ 63 - 1)"
    then obtain r where loop: "durationLoop fr 0
            (if take 1 s = ''-'' \<or> take 1 s = ''+'' then drop 1 s else s) = Inr r"
      and d: "if take 1 s = ''-'' then d = - r else d = r \<and> r \<le> 2 ^ 63 - 1"
      by (elim exE conjE)
    from durationLoop_range [OF loop] have "0 \<le> r" by simp
    with d assms(2) show ?thesis by simp
  qed
qed

lemma scanLoop_durations:
  "scanLoop le lines acc = Inr ps \<Longrightarrow>
   map (\<lambda>p. Inr (TTL p)) ps =
     map (\<lambda>p. Inr (TTL p)) acc @ map (ParseDuration (float_frac le)) (durationFields lines)"
proof (induction lines arbitrary: acc)
  case Nil
  then show ?case by (simp add: durationFields_def)
next
  case (Cons ln rest)
  show ?case
  proof (cases "splitLine ln")
    case Skipped
    with Cons.prems have "scanLoop le rest acc = Inr ps" by simp
    from Cons.IH [OF this] Skipped show ?thesis by (simp add: durationFields_def)
  next
    case (NoSeparator line)
    with Cons.prems show ?thesis by simp
  next
    case (Fields pattern duration)
    with Cons.prems obtain rx d where "regexp_Compile le pattern = Inr rx"
      and parsed: "ParseDuration (float_frac le) duration = Inr d"
      and rec: "scanLoop le rest (acc @ [\<lparr>Pattern = rx, TTL = d\<rparr>]) = Inr ps"
      by (auto split: sum.splits)
    from Cons.IH [OF rec] Fields parsed show ?thesis by (simp add: durationFields_def)
  qed
qed

lemma LoadPoliciesFromFile_durations:
  assumes "LoadPoliciesFromFile le filename = Inr policies"
  shows "map (\<lambda>p. Inr (TTL p)) policies =
    map (ParseDuration (float_frac le)) (durationFields (scannedLines le filename)) @
      [Inr (10 * Minute)]"
proof -
  from LoadPoliciesFromFile_cases [OF assms] obtain catchAll where
    alt: "(scannedLines le filename = [] \<and> policies = [\<lparr>Pattern = catchAll, TTL = 10 * Minute\<rparr>]) \<or>
     (\<exists>ps. scanLoop le (scannedLines le filename) [] = Inr ps \<and>
        policies = ps @ [\<lparr>Pattern = catchAll, TTL = 10 * Minute\<rparr>])"
    by (elim exE conjE)
  then show ?thesis
  proof
    assume "scannedLines le filename = [] \<and> policies = [\<lparr>Pattern = catchAll, TTL = 10 * Minute\<rparr>]"
    then show ?thesis by (simp add: durationFields_def)
  next
    assume "\<exists>ps. scanLoop le (scannedLines le filename) [] = Inr ps \<and>
        policies = ps @ [\<lparr>Pattern = catchAll, TTL = 10 * Minute\<rparr>]"
    then obtain ps where scan: "scanLoop le (scannedLines le filename) [] = Inr ps"
      and policies: "policies = ps @ [\<lparr>Pattern = catchAll, TTL = 10 * Minute\<rparr>]"
      by (elim exE conjE)
    from scanLoop_durations [OF scan] policies show ?thesis by simp
  qed
qed

text \<open>
  Claim C7, as amended. The policies that \<^verbatim>\<open>LoadPoliciesFromFile\<close> returns carry,
  in line order, exactly the durations that \<^verbatim>\<open>time.ParseDuration\<close> returns for the
  duration fields of the lines, followed by the ten minutes of the catch-all. The
  TTL of a policy is greater than or equal to zero when its duration field does
  not begin with a minus sign, and less than or equal to zero when it does; in
  both cases it lies in the range of \<^verbatim>\<open>int64\<close> nanoseconds.
\<close>

theorem C7_loaded_TTL_is_the_parsed_duration:
  assumes "LoadPoliciesFromFile le filename = Inr policies"
  shows "map (\<lambda>p. Inr (TTL p)) policies =
      map (ParseDuration (float_frac le)) (durationFields (scannedLines le filename)) @
        [Inr (10 * Minute)] \<and>
    (\<forall>i < length (durationFields (scannedLines le filename)).
       (take 1 (durationFields (scannedLines le filename) ! i) \<noteq> ''-''
          \<longrightarrow> 0 \<le> TTL (policies ! i)) \<and>
       (take 1 (durationFields (scannedLines le filename) ! i) = ''-''
          \<longrightarrow> TTL (policies ! i) \<le> 0)) \<and>
    (\<forall>p \<in> set policies. minDuration \<le> TTL p \<and> TTL p \<le> maxDuration)"
proof (intro conjI allI impI)
  show eq: "map (\<lambda>p. Inr (TTL p)) policies =
      map (ParseDuration (float_frac le)) (durationFields (scannedLines le filename)) @
        [Inr (10 * Minute)]"
    using assms by (rule LoadPoliciesFromFile_durations)
  have parsed: "ParseDuration (float_frac le) (durationFields (scannedLines le filename) ! i) =
      Inr (TTL (policies ! i))"
    if "i < length (durationFields (scannedLines le filename))" for i
  proof -
    from eq have len: "length policies = Suc (length (durationFields (scannedLines le filename)))"
      by (metis length_append_singleton length_map)
    from eq have "map (\<lambda>p. Inr (TTL p)) policies ! i =
      (map (ParseDuration (float_frac le)) (durationFields (scannedLines le filename)) @
        [Inr (10 * Minute)]) ! i" by simp
    with that len show ?thesis by (simp add: nth_append)
  qed
  show "0 \<le> TTL (policies ! i)"
    if "i < length (durationFields (scannedLines le filename))"
      and "take 1 (durationFields (scannedLines le filename) ! i) \<noteq> ''-''" for i
    using parsed [OF that(1)] that(2) by (rule ParseDuration_unsigned)
  show "TTL (policies ! i) \<le> 0"
    if "i < length (durationFields (scannedLines le filename))"
      and "take 1 (durationFields (scannedLines le filename) ! i) = ''-''" for i
    using parsed [OF that(1)] that(2) by (rule ParseDuration_signed)
  show "\<forall>p \<in> set policies. minDuration \<le> TTL p \<and> TTL p \<le> maxDuration"
    using assms
  proof (rule LoadPoliciesFromFile_TTL)
    show "minDuration \<le> 10 * Minute \<and> 10 * Minute \<le> maxDuration"
      by (simp add: minDuration_def maxDuration_def Minute_def Second_def)
  qed (rule ParseDuration_range)
qed

text \<open>
  The policy file of \<^verbatim>\<open>TestCachePolicy\<close>: the fields \<^verbatim>\<open>5m\<close> and \<^verbatim>\<open>1s\<close> carry no
  sign, and the three policies carry five minutes, one second and ten minutes.
\<close>

theorem C7_witness:
  "\<exists>ps. LoadPoliciesFromFile testLoader ''policies.txt'' = Inr ps \<and>
     durationFields (scannedLines testLoader ''policies.txt'') = [''5m'', ''1s''] \<and>
     map (\<lambda>p. Inr (TTL p)) ps =
       map (ParseDuration (float_frac testLoader)) [''5m'', ''1s''] @ [Inr (10 * Minute)] \<and>
     map TTL ps = [300000000000, 1000000000, 600000000000] \<and>
     0 \<le> TTL (ps ! 0) \<and> 0 \<le> TTL (ps ! 1) \<and>
     (\<forall>p \<in> set ps. minDuration \<le> TTL p \<and> TTL p \<le> maxDuration)"
proof -
  have "\<exists>ps. LoadPoliciesFromFile testLoader ''policies.txt'' = Inr ps \<and>
     map TTL ps = [300000000000, 1000000000, 600000000000]"
    by (simp add: load_eval)
  then obtain ps where load: "LoadPoliciesFromFile testLoader ''policies.txt'' = Inr ps"
    and ttls: "map TTL ps = [300000000000, 1000000000, 600000000000]"
    by (elim exE conjE)
  have fields: "durationFields (scannedLines testLoader ''policies.txt'') = [''5m'', ''1s'']"
    by (simp add: durationFields_def scannedLines_examples splitLine_examples)
  note c7 = C7_loaded_TTL_is_the_parsed_duration [OF load]
  note eq = conjunct1 [OF c7, unfolded fields]
  note sign = conjunct1 [OF conjunct2 [OF c7], unfolded fields]
  have i0: "(0::nat) < length [''5m'', ''1s'']" and i1: "(1::nat) < length [''5m'', ''1s'']"
    by simp_all
  have u0: "take 1 ([''5m'', ''1s''] ! 0) \<noteq> ''-''" and u1: "take 1 ([''5m'', ''1s''] ! 1) \<noteq> ''-''"
    by simp_all
  note p0 = mp [OF conjunct1 [OF mp [OF spec [OF sign, of 0] i0]] u0]
  note p1 = mp [OF conjunct1 [OF mp [OF spec [OF sign, of 1] i1]] u1]
  show ?thesis
    by (rule exI [of _ ps])
      (intro conjI load fields eq ttls p0 p1 conjunct2 [OF conjunct2 [OF c7]])
qed

text \<open>
  Claim C7 as stated fails: the one-line file \<^verbatim>\<open>.*\.example\.com=-5m\<close> loads without
  error and its policy carries minus five minutes.
\<close>

theorem C7_counterexample:
  "\<not> isl (LoadPoliciesFromFile testLoader ''negative.txt'') \<and>
   map TTL (projr (LoadPoliciesFromFile testLoader ''negative.txt'')) =
     [- 300000000000, 600000000000] \<and>
   \<not> (\<forall>p \<in> set (projr (LoadPoliciesFromFile testLoader ''negative.txt'')). 0 \<le> TTL p)"
  by (simp add: load_eval)

text \<open>
  Claim C4. \<^verbatim>\<open>time.ParseDuration\<close> has no unit \<^verbatim>\<open>d\<close>: the durations \<^verbatim>\<open>1d\<close> and
  \<^verbatim>\<open>7d\<close> are errors for every floating-point behaviour, while the compound form
  \<^verbatim>\<open>1h30m\<close> is ninety minutes. Loading two lines of the repository's sample policy
  file, the second with the duration \<^verbatim>\<open>7d\<close>, aborts with the invalid-duration error.
\<close>

theorem C4_duration_in_days_is_rejected:
  "ParseDuration fr ''1d'' = Inl (UnknownUnit ''d'') \<and>
   ParseDuration fr ''7d'' = Inl (UnknownUnit ''d'') \<and>
   ParseDuration fr ''1h30m'' = Inr (90 * Minute) \<and>
   LoadPoliciesFromFile testLoader ''sample.txt'' = Inl (InvalidDurationText (UnknownUnit ''d''))"
  by (simp add: load_eval)

section \<open>The cache read\<close>

text \<open>The definitions that unfold a call into its store and transport steps.\<close>

lemmas run_defs = GetWithValidator_def Cache_Get_def Store_Get_def Store_Delete_def Cache_Delete_def
  httpExchange_def Cache_Set_def Store_Put_def time_Now_def hashKey_def

lemmas test_defs = testEnv_def testWorld_def testClient_def testEntry_def emptyWorld_def
  GetTTL_def Minute_def Second_def hashKey_def

text \<open>
  Claim C2. \<^verbatim>\<open>Cache.Get\<close> on a key whose stored bytes decode to \<open>entry\<close>: with
  \<open>now\<close> the clock reading and \<open>ttl\<close> the TTL that the policy list in effect at the
  read resolves for \<^verbatim>\<open>entry.URL\<close>, an entry with a non-zero \<^verbatim>\<open>CrawledAt\<close> is
  expired exactly when \<^verbatim>\<open>now.Sub(entry.CrawledAt) > ttl\<close> (the stored \<^verbatim>\<open>ExpiresAt\<close>
  plays no part), and an entry with a zero \<^verbatim>\<open>CrawledAt\<close> exactly when \<open>now\<close> is
  after \<^verbatim>\<open>ExpiresAt\<close>. An expired entry makes the read issue a delete for the key
  and report absent; otherwise data and final URL are returned and the store is
  left alone. \<^verbatim>\<open>Sub\<close> is the difference of the two instants as long as that fits
  a duration, so for every TTL below the largest duration the test is
  \<open>now - CrawledAt > ttl\<close>.
\<close>

theorem C2_Cache_Get_expiry:
  assumes "storeErr env (length (trace w)) = None"
    and "db w key = Some stored"
    and "BytesToObject env stored = Inr entry"
  shows "let now = clock env (Suc (length (trace w)));
             ttl = GetTTL c (URL entry);
             expired = (if CrawledAt entry \<noteq> 0 then ttl < time_Sub now (CrawledAt entry)
                        else ExpiresAt entry < now)
         in Cache_Get env c w key =
              (if expired
               then (None,
                     w\<lparr>db := (if storeErr env (Suc (length (trace w))) = None
                               then (db w)(key := None) else db w),
                       trace := trace w @ [StoreGet key, StoreDelete key]\<rparr>)
               else (Some (Data entry, FinalURL entry), w\<lparr>trace := trace w @ [StoreGet key]\<rparr>)) \<and>
            (minDuration \<le> ttl \<and> ttl < maxDuration \<longrightarrow>
               (ttl < time_Sub now (CrawledAt entry)) = (ttl < now - CrawledAt entry))"
  using assms
  by (auto simp: Let_def Cache_Get_def Store_Get_def Store_Delete_def time_Now_def isExpired_def
      time_IsZero_def time_After_def time_Sub_def split: option.splits)

text \<open>
  The stored entry was fetched at 1000 and is read at 2001: it is returned under
  the ten-minute policy, and deleted under a policy of 500 nanoseconds.
\<close>

theorem C2_witness:
  "Cache_Get testEnv (cache testClient) testWorld ''key:http://srv/page'' =
     (Some (''test response'', ''http://srv/final''),
      testWorld\<lparr>trace := [StoreGet ''key:http://srv/page'']\<rparr>) \<and>
   Cache_Get testEnv shortCache testWorld ''key:http://srv/page'' =
     (None, \<lparr>db = Map.empty, trace = [StoreGet ''key:http://srv/page'',
                                        StoreDelete ''key:http://srv/page'']\<rparr>)"
proof -
  have h1: "storeErr testEnv (length (trace testWorld)) = None"
    by (simp add: testEnv_def)
  have h2: "db testWorld ''key:http://srv/page'' = Some ''stored''"
    by (simp add: testWorld_def)
  have h3: "BytesToObject testEnv ''stored'' = Inr testEntry"
    by (simp add: testEnv_def)
  from C2_Cache_Get_expiry [OF h1 h2 h3, of "cache testClient"]
    C2_Cache_Get_expiry [OF h1 h2 h3, of shortCache]
  show ?thesis
    by (simp add: Let_def test_defs shortCache_def time_Sub_def minDuration_def maxDuration_def)
qed

section \<open>The fetch orchestrator\<close>

lemma GetWithValidator_hit:
  assumes "cachedFresh env hc w url entry" and "accepts validator (Data entry)"
  shows "GetWithValidator env hc w url validator =
    ((Some (Data entry), FinalURL entry, None),
     w\<lparr>trace := trace w @ [StoreGet (hashKey env url)]\<rparr>)"
  using assms
  by (auto simp: cachedFresh_def run_defs Let_def split: option.splits)

text \<open>
  Claim C1. When the TTL of the URL is positive, the store holds under the URL's
  key an entry that is not expired, and the validator accepts its data (or there
  is no validator), \<^verbatim>\<open>GetWithValidator\<close> returns the entry's data and stored final
  URL with no error; the only event it adds to the trace is the store read, so
  no URL is fetched. A second call under the same conditions returns the same
  triple and, again, fetches nothing.
\<close>

theorem C1_cached_entry_is_returned_without_fetch:
  assumes "cachedFresh env hc w url entry" and "accepts validator (Data entry)"
  shows "fst (GetWithValidator env hc w url validator) = (Some (Data entry), FinalURL entry, None) \<and>
    snd (GetWithValidator env hc w url validator) =
      w\<lparr>trace := trace w @ [StoreGet (hashKey env url)]\<rparr> \<and>
    fetched (newEvents w (snd (GetWithValidator env hc w url validator))) = [] \<and>
    (cachedFresh env hc (snd (GetWithValidator env hc w url validator)) url entry \<longrightarrow>
       fst (GetWithValidator env hc (snd (GetWithValidator env hc w url validator)) url validator) =
         fst (GetWithValidator env hc w url validator) \<and>
       trace (snd (GetWithValidator env hc (snd (GetWithValidator env hc w url validator)) url validator)) =
         trace w @ [StoreGet (hashKey env url), StoreGet (hashKey env url)] \<and>
       fetched (newEvents w (snd (GetWithValidator env hc
          (snd (GetWithValidator env hc w url validator)) url validator))) = [])"
proof -
  note first = GetWithValidator_hit [OF assms]
  have second: "GetWithValidator env hc (w\<lparr>trace := trace w @ [StoreGet (hashKey env url)]\<rparr>) url validator =
      ((Some (Data entry), FinalURL entry, None),
       w\<lparr>trace := trace w @ [StoreGet (hashKey env url), StoreGet (hashKey env url)]\<rparr>)"
    if "cachedFresh env hc (w\<lparr>trace := trace w @ [StoreGet (hashKey env url)]\<rparr>) url entry"
    using GetWithValidator_hit [OF that assms(2)] by simp
  show ?thesis
    unfolding first using second by (simp add: newEvents_def)
qed

text \<open>Two calls for the cached URL of the test outside, without a validator.\<close>

theorem C1_witness:
  "fst (GetWithValidator testEnv testClient testWorld ''http://srv/page'' None) =
     (Some ''test response'', ''http://srv/final'', None) \<and>
   fetched (newEvents testWorld
     (snd (GetWithValidator testEnv testClient testWorld ''http://srv/page'' None))) = [] \<and>
   fst (GetWithValidator testEnv testClient
     (snd (GetWithValidator testEnv testClient testWorld ''http://srv/page'' None))
     ''http://srv/page'' None) = (Some ''test response'', ''http://srv/final'', None) \<and>
   fetched (newEvents testWorld (snd (GetWithValidator testEnv testClient
     (snd (GetWithValidator testEnv testClient testWorld ''http://srv/page'' None))
     ''http://srv/page'' None))) = []"
proof -
  have fresh: "cachedFresh testEnv testClient testWorld ''http://srv/page'' testEntry"
    by (simp add: cachedFresh_def isExpired_def time_IsZero_def time_Sub_def minDuration_def
        maxDuration_def test_defs)
  have acc: "accepts None (Data testEntry)"
    by (simp add: accepts_def)
  note c1 = C1_cached_entry_is_returned_without_fetch [OF fresh acc]
  have again: "cachedFresh testEnv testClient
      (snd (GetWithValidator testEnv testClient testWorld ''http://srv/page'' None))
      ''http://srv/page'' testEntry"
    unfolding conjunct1 [OF conjunct2 [OF c1]]
    by (simp add: cachedFresh_def isExpired_def time_IsZero_def time_Sub_def minDuration_def
        maxDuration_def test_defs)
  have a: "fst (GetWithValidator testEnv testClient testWorld ''http://srv/page'' None) =
     (Some ''test response'', ''http://srv/final'', None)"
    using conjunct1 [OF c1] by (simp add: testEntry_def)
  note second = mp [OF conjunct2 [OF conjunct2 [OF conjunct2 [OF c1]]] again]
  show ?thesis
    by (intro conjI a conjunct1 [OF conjunct2 [OF conjunct2 [OF c1]]]
        trans [OF conjunct1 [OF second] a] conjunct2 [OF conjunct2 [OF second]])
qed

lemma rejected_fetch_result:
  assumes "GetWithValidator env hc w url (Some v) = (res, w')"
    and "HttpGet url (Response finalURL body) \<in> set (newEvents w w')"
    and "\<not> v body"
  shows "res = (Some body, finalURL, None) \<and> filter isStorePut (newEvents w w') = []"
  using assms
  by (auto simp: run_defs accepts_def newEvents_def Let_def
      split: option.splits sum.splits if_splits prod.splits response.splits)

lemma rejected_fetch_leaves_no_entry:
  assumes "GetWithValidator env hc w url (Some v) = (res, w')"
    and "HttpGet url (Response finalURL body) \<in> set (newEvents w w')"
    and "\<not> v body"
    and "storeErr env (length (trace w)) = None"
    and "storeErr env (Suc (length (trace w))) = None"
  shows "GetTTL (cache hc) url \<le> 0 \<or> noEntry env w' (hashKey env url)"
  using assms
  by (auto simp: run_defs accepts_def newEvents_def noEntry_def Let_def
      split: option.splits sum.splits if_splits prod.splits response.splits)

lemma Cache_Get_noEntry:
  assumes "noEntry env w key"
  shows "Cache_Get env c w key = (None, w\<lparr>trace := trace w @ [StoreGet key]\<rparr>)"
  using assms
  by (cases "BytesToObject env (the (db w key))")
    (simp_all add: noEntry_def Cache_Get_def Store_Get_def split: option.splits)

lemma miss_fetches:
  assumes "GetTTL (cache hc) url \<le> 0 \<or> noEntry env w (hashKey env url)"
  shows "url \<in> set (fetched (newEvents w (snd (GetWithValidator env hc w url validator))))"
proof (cases "0 < GetTTL (cache hc) url")
  case False
  then show ?thesis
    by (simp add: GetWithValidator_def httpExchange_def newEvents_def Let_def Cache_Set_def
        split: response.splits)
next
  case True
  with assms have "noEntry env w (hashKey env url)" by simp
  from Cache_Get_noEntry [OF this] True show ?thesis
    by (simp add: GetWithValidator_def httpExchange_def newEvents_def Let_def Cache_Set_def
        Store_Put_def split: response.splits sum.splits option.splits)
qed

text \<open>
  Claim C5. When a call of \<^verbatim>\<open>GetWithValidator\<close> fetched the URL, the exchange
  succeeded and the validator rejects the fetched body, the call still returns
  the body and the final URL with no error, and it issues no put to the store.
  When moreover the store operations of that call did not fail, the next call for
  the same URL, with any validator or none, fetches the URL again.
\<close>

theorem C5_rejected_fresh_content_is_returned_not_cached:
  assumes "GetWithValidator env hc w url (Some v) = (res, w')"
    and "HttpGet url (Response finalURL body) \<in> set (newEvents w w')"
    and "\<not> v body"
  shows "res = (Some body, finalURL, None) \<and>
    filter isStorePut (newEvents w w') = [] \<and>
    (storeErr env (length (trace w)) = None \<and> storeErr env (Suc (length (trace w))) = None \<longrightarrow>
      (\<forall>validator.
         url \<in> set (fetched (newEvents w' (snd (GetWithValidator env hc w' url validator))))))"
proof (intro conjI impI allI)
  show "res = (Some body, finalURL, None)"
    using rejected_fetch_result [OF assms] by simp
  show "filter isStorePut (newEvents w w') = []"
    using rejected_fetch_result [OF assms] by simp
next
  fix validator
  assume "storeErr env (length (trace w)) = None \<and> storeErr env (Suc (length (trace w))) = None"
  then have "GetTTL (cache hc) url \<le> 0 \<or> noEntry env w' (hashKey env url)"
    using rejected_fetch_leaves_no_entry [OF assms] by simp
  then show "url \<in> set (fetched (newEvents w' (snd (GetWithValidator env hc w' url validator))))"
    by (rule miss_fetches)
qed

text \<open>An empty store, and a validator that rejects what the server sends.\<close>

theorem C5_witness:
  "GetWithValidator testEnv testClient emptyWorld ''http://srv/page'' wantsExpected =
     ((Some ''fresh response'', ''http://srv/final'', None),
      \<lparr>db = Map.empty,
       trace = [StoreGet ''key:http://srv/page'',
                HttpGet ''http://srv/page'' (Response ''http://srv/final'' ''fresh response'')]\<rparr>) \<and>
   ''http://srv/page'' \<in> set (fetched (newEvents
      \<lparr>db = Map.empty,
       trace = [StoreGet ''key:http://srv/page'',
                HttpGet ''http://srv/page'' (Response ''http://srv/final'' ''fresh response'')]\<rparr>
      (snd (GetWithValidator testEnv testClient
        \<lparr>db = Map.empty,
         trace = [StoreGet ''key:http://srv/page'',
                  HttpGet ''http://srv/page'' (Response ''http://srv/final'' ''fresh response'')]\<rparr>
        ''http://srv/page'' None))))"
proof -
  let ?w1 = "\<lparr>db = Map.empty,
       trace = [StoreGet ''key:http://srv/page'',
                HttpGet ''http://srv/page'' (Response ''http://srv/final'' ''fresh response'')]\<rparr>"
  have run: "GetWithValidator testEnv testClient emptyWorld ''http://srv/page''
      (Some (\<lambda>body. body = ''expected'')) =
     ((Some ''fresh response'', ''http://srv/final'', None), ?w1)"
    by (simp add: run_defs test_defs accepts_def Let_def)
  have ev: "HttpGet ''http://srv/page'' (Response ''http://srv/final'' ''fresh response'')
      \<in> set (newEvents emptyWorld ?w1)"
    by (simp add: newEvents_def emptyWorld_def)
  have rej: "\<not> (\<lambda>body. body = ''expected'') ''fresh response''"
    by simp
  note c5 = C5_rejected_fresh_content_is_returned_not_cached [OF run ev rej]
  have ok: "storeErr testEnv (length (trace emptyWorld)) = None \<and>
      storeErr testEnv (Suc (length (trace emptyWorld))) = None"
    by (simp add: testEnv_def)
  note again = spec [OF mp [OF conjunct2 [OF conjunct2 [OF c5]] ok], of None]
  show ?thesis
    unfolding wantsExpected_def by (intro conjI run again)
qed

text \<open>
  Claim C6. When the exchange of a call of \<^verbatim>\<open>GetWithValidator\<close> fails (building
  the request, sending it, or reading the body), the call returns no data and
  exactly the error of the exchange; it issues no put, and the store afterwards
  holds nothing it did not hold before.
\<close>

theorem C6_transport_error_is_propagated:
  assumes "GetWithValidator env hc w url validator = (res, w')"
    and "HttpGet url r \<in> set (newEvents w w')"
    and "responseError r = Some err"
  shows "fst res = None \<and> snd (snd res) = Some err \<and>
    filter isStorePut (newEvents w w') = [] \<and> db w' \<subseteq>\<^sub>m db w"
  using assms
  by (auto simp: run_defs newEvents_def Let_def map_le_def
      split: option.splits sum.splits if_splits prod.splits response.splits)

text \<open>A URL the test server does not answer.\<close>

theorem C6_witness:
  "GetWithValidator testEnv testClient emptyWorld ''http://invalid/'' None =
     ((None, [], Some ''no such host''),
      \<lparr>db = Map.empty,
       trace = [StoreGet ''key:http://invalid/'',
                HttpGet ''http://invalid/'' (DoError ''no such host'')]\<rparr>) \<and>
   filter isStorePut (newEvents emptyWorld
      \<lparr>db = Map.empty,
       trace = [StoreGet ''key:http://invalid/'',
                HttpGet ''http://invalid/'' (DoError ''no such host'')]\<rparr>) = [] \<and>
   Map.empty \<subseteq>\<^sub>m db emptyWorld"
proof -
  let ?w1 = "\<lparr>db = Map.empty,
       trace = [StoreGet ''key:http://invalid/'',
                HttpGet ''http://invalid/'' (DoError ''no such host'')]\<rparr>"
  have run: "GetWithValidator testEnv testClient emptyWorld ''http://invalid/'' None =
     ((None, [], Some ''no such host''), ?w1)"
    by (simp add: run_defs test_defs accepts_def Let_def)
  have ev: "HttpGet ''http://invalid/'' (DoError ''no such host'') \<in> set (newEvents emptyWorld ?w1)"
    by (simp add: newEvents_def emptyWorld_def)
  have err: "responseError (DoError ''no such host'') = Some ''no such host''"
    by simp
  note c6 = C6_transport_error_is_propagated [OF run ev err]
  from c6 have "filter isStorePut (newEvents emptyWorld ?w1) = []" and "db ?w1 \<subseteq>\<^sub>m db emptyWorld"
    by (rule conjunct1 [OF conjunct2 [OF conjunct2]], rule conjunct2 [OF conjunct2 [OF conjunct2]])
  then show ?thesis
    using run by simp
qed

text \<open>
  Claim C10. A fresh entry is cached for the URL, the validator rejects its
  data, and the exchange that follows fails: the call returns the error of the
  exchange, and by then it has issued the delete of the entry, which comes before
  the fetch in the trace. Nothing restores the entry: when the store carries out
  the delete, the key is empty after the call though it was not before.
\<close>

theorem C10_rejected_entry_is_deleted_before_failed_fetch:
  assumes "cachedFresh env hc w url entry"
    and "\<not> accepts validator (Data entry)"
    and "transport env (Suc (Suc (length (trace w)))) url = r"
    and "responseError r = Some err"
  shows "fst (fst (GetWithValidator env hc w url validator)) = None \<and>
    snd (snd (fst (GetWithValidator env hc w url validator))) = Some err \<and>
    trace (snd (GetWithValidator env hc w url validator)) =
      trace w @ [StoreGet (hashKey env url), StoreDelete (hashKey env url), HttpGet url r] \<and>
    db (snd (GetWithValidator env hc w url validator)) =
      (if storeErr env (Suc (length (trace w))) = None
       then (db w)(hashKey env url := None) else db w) \<and>
    (storeErr env (Suc (length (trace w))) = None \<longrightarrow>
       db (snd (GetWithValidator env hc w url validator)) (hashKey env url) = None \<and>
       db w (hashKey env url) \<noteq> None)"
  using assms
  by (cases r)
    (auto simp: cachedFresh_def run_defs Let_def split: option.splits)

text \<open>The cached entry of the test outside, rejected, with the transport down.\<close>

theorem C10_witness:
  "GetWithValidator downEnv testClient testWorld ''http://srv/page'' wantsExpected =
     ((None, [], Some ''connection refused''),
      \<lparr>db = Map.empty,
       trace = [StoreGet ''key:http://srv/page'', StoreDelete ''key:http://srv/page'',
                HttpGet ''http://srv/page'' (DoError ''connection refused'')]\<rparr>) \<and>
   db testWorld ''key:http://srv/page'' = Some ''stored'' \<and>
   db (snd (GetWithValidator downEnv testClient testWorld ''http://srv/page'' wantsExpected))
     ''key:http://srv/page'' = None"
proof -
  have fresh: "cachedFresh downEnv testClient testWorld ''http://srv/page'' testEntry"
    by (simp add: cachedFresh_def isExpired_def time_IsZero_def time_Sub_def minDuration_def
        maxDuration_def downEnv_def test_defs)
  have rej: "\<not> accepts wantsExpected (Data testEntry)"
    by (simp add: accepts_def wantsExpected_def testEntry_def)
  have tr: "transport downEnv (Suc (Suc (length (trace testWorld)))) ''http://srv/page'' =
      DoError ''connection refused''"
    by (simp add: downEnv_def)
  have err: "responseError (DoError ''connection refused'') = Some ''connection refused''"
    by simp
  note c10 = C10_rejected_entry_is_deleted_before_failed_fetch [OF fresh rej tr err]
  have ok: "storeErr downEnv (Suc (length (trace testWorld))) = None"
    by (simp add: downEnv_def testEnv_def)
  have run: "GetWithValidator downEnv testClient testWorld ''http://srv/page'' wantsExpected =
     ((None, [], Some ''connection refused''),
      \<lparr>db = Map.empty,
       trace = [StoreGet ''key:http://srv/page'', StoreDelete ''key:http://srv/page'',
                HttpGet ''http://srv/page'' (DoError ''connection refused'')]\<rparr>)"
    by (simp add: run_defs test_defs downEnv_def wantsExpected_def accepts_def Let_def
        isExpired_def time_IsZero_def time_Sub_def minDuration_def maxDuration_def)
  have gone: "db (snd (GetWithValidator downEnv testClient testWorld ''http://srv/page'' wantsExpected))
     ''key:http://srv/page'' = None"
    using conjunct1 [OF mp [OF conjunct2 [OF conjunct2 [OF conjunct2 [OF conjunct2 [OF c10]]]] ok]]
    by (simp add: hashKey_def downEnv_def testEnv_def)
  have before: "db testWorld ''key:http://srv/page'' = Some ''stored''"
    by (simp add: testWorld_def)
  show ?thesis
    by (intro conjI run before gone)
qed

lemma Get_snd: "snd (Get env hc w url) = snd (GetWithValidator env hc w url None)"
  by (cases "GetWithValidator env hc w url None") (auto simp: Get_def)

text \<open>
  Claim C9. \<^verbatim>\<open>NewClient\<close> keeps the policy list it is given and appends no
  catch-all. For a URL that none of the patterns matches (every URL when the list
  is empty) \<^verbatim>\<open>GetTTL\<close> is 0, and \<^verbatim>\<open>GetWithValidator\<close> and \<^verbatim>\<open>Get\<close>, from any
  state of the outside, add exactly one event, the fetch of the URL: they neither
  read nor write the store.
\<close>

theorem C9_NewClient_policies_as_is:
  assumes "NewClient env cacheDir policies = Inr (hc, w0)"
  shows "Policies (cache hc) = policies \<and>
    ((\<forall>p \<in> set policies. \<not> Pattern p url) \<longrightarrow>
       GetTTL (cache hc) url = 0 \<and>
       (\<forall>w validator.
          snd (GetWithValidator env hc w url validator) =
            w\<lparr>trace := trace w @ [HttpGet url (transport env (length (trace w)) url)]\<rparr> \<and>
          snd (Get env hc w url) =
            w\<lparr>trace := trace w @ [HttpGet url (transport env (length (trace w)) url)]\<rparr>))"
proof -
  from assms have hc: "hc = \<lparr>cache = \<lparr>Policies = policies\<rparr>\<rparr>"
    by (auto simp: NewClient_def split: if_splits sum.splits)
  have miss: "snd (GetWithValidator env hc w url validator) =
      w\<lparr>trace := trace w @ [HttpGet url (transport env (length (trace w)) url)]\<rparr>"
    if "GetTTL (cache hc) url = 0" for w validator
    using that
    by (simp add: GetWithValidator_def httpExchange_def Let_def split: response.splits)
  show ?thesis
  proof (intro conjI impI allI)
    show "Policies (cache hc) = policies" by (simp add: hc)
  next
    assume "\<forall>p \<in> set policies. \<not> Pattern p url"
    then show ttl: "GetTTL (cache hc) url = 0"
      by (simp add: hc GetTTL_def firstMatch_none)
    fix w validator
    show "snd (GetWithValidator env hc w url validator) =
      w\<lparr>trace := trace w @ [HttpGet url (transport env (length (trace w)) url)]\<rparr>"
      using ttl by (rule miss)
    show "snd (Get env hc w url) =
      w\<lparr>trace := trace w @ [HttpGet url (transport env (length (trace w)) url)]\<rparr>"
      using miss [OF ttl, of w None] by (simp add: Get_snd)
  qed
qed

text \<open>
  A client with no policies over the store that holds a fresh entry for the URL:
  the entry is not read.
\<close>

theorem C9_witness:
  "NewClient testEnv ''cache'' [] = Inr (\<lparr>cache = \<lparr>Policies = []\<rparr>\<rparr>, emptyWorld) \<and>
   GetTTL \<lparr>Policies = []\<rparr> ''http://srv/page'' = 0 \<and>
   snd (GetWithValidator testEnv \<lparr>cache = \<lparr>Policies = []\<rparr>\<rparr> testWorld ''http://srv/page'' None) =
     testWorld\<lparr>trace := [HttpGet ''http://srv/page''
        (Response ''http://srv/final'' ''fresh response'')]\<rparr> \<and>
   snd (Get testEnv \<lparr>cache = \<lparr>Policies = []\<rparr>\<rparr> testWorld ''http://srv/page'') =
     testWorld\<lparr>trace := [HttpGet ''http://srv/page''
        (Response ''http://srv/final'' ''fresh response'')]\<rparr>"
proof -
  have new: "NewClient testEnv ''cache'' [] = Inr (\<lparr>cache = \<lparr>Policies = []\<rparr>\<rparr>, emptyWorld)"
    by (simp add: NewClient_def testEnv_def emptyWorld_def)
  note c9 = C9_NewClient_policies_as_is [OF new, of "''http://srv/page''"]
  have none: "\<forall>p \<in> set ([] :: CachePolicy list). \<not> Pattern p ''http://srv/page''"
    by simp
  note miss = mp [OF conjunct2 [OF c9] none]
  note runs = spec [OF spec [OF conjunct2 [OF miss], of testWorld], of None]
  have tr: "transport testEnv 0 ''http://srv/page'' =
      Response ''http://srv/final'' ''fresh response''"
    by (simp add: testEnv_def)
  have t0: "trace testWorld = []"
    by (simp add: testWorld_def)
  show ?thesis
    using new conjunct1 [OF miss] runs by (simp add: tr t0)
qed

text \<open>
  Claim C8. \<^verbatim>\<open>Fetch\<close> and \<^verbatim>\<open>FetchWithFinalURL\<close> start with the exchange for the
  URL whatever the store holds, and never read the store. When the exchange
  succeeds, the TTL of the URL is positive (and, for \<^verbatim>\<open>Fetch\<close>, the validator
  accepts the body or is absent), the entry encodes and the store takes the put,
  the bytes stored under the URL's key afterwards are those of the new entry;
  the entry \<^verbatim>\<open>Fetch\<close> stores has the empty string as final URL, the one
  \<^verbatim>\<open>FetchWithFinalURL\<close> stores has the final URL of the exchange.
\<close>

theorem C8_Fetch_bypasses_cache_read:
  "(\<exists>rest. newEvents w (snd (Fetch env hc w url validator)) =
       HttpGet url (transport env (length (trace w)) url) # rest \<and>
       filter isStoreGet rest = []) \<and>
   (\<exists>rest. newEvents w (snd (FetchWithFinalURL env hc w url)) =
       HttpGet url (transport env (length (trace w)) url) # rest \<and>
       filter isStoreGet rest = []) \<and>
   (transport env (length (trace w)) url = Response finalURL body \<and>
    0 < GetTTL (cache hc) url \<and>
    storeErr env (Suc (length (trace w))) = None \<longrightarrow>
      (accepts validator body \<and>
       ObjectToBytes env
         \<lparr>Data = body, URL = url, FinalURL = [],
          CrawledAt = clock env (Suc (length (trace w))),
          ExpiresAt = clock env (Suc (length (trace w))) + GetTTL (cache hc) url\<rparr> = Inr encoded
       \<longrightarrow> Fetch env hc w url validator =
            ((Some body, None),
             w\<lparr>db := (db w)(hashKey env url \<mapsto> encoded),
               trace := trace w @ [HttpGet url (Response finalURL body),
                                   StorePut (hashKey env url) encoded]\<rparr>)) \<and>
      (ObjectToBytes env
         \<lparr>Data = body, URL = url, FinalURL = finalURL,
          CrawledAt = clock env (Suc (length (trace w))),
          ExpiresAt = clock env (Suc (length (trace w))) + GetTTL (cache hc) url\<rparr> = Inr encoded
       \<longrightarrow> FetchWithFinalURL env hc w url =
            ((Some body, finalURL, None),
             w\<lparr>db := (db w)(hashKey env url \<mapsto> encoded),
               trace := trace w @ [HttpGet url (Response finalURL body),
                                   StorePut (hashKey env url) encoded]\<rparr>)))"
proof (intro conjI impI)
  show "\<exists>rest. newEvents w (snd (Fetch env hc w url validator)) =
       HttpGet url (transport env (length (trace w)) url) # rest \<and> filter isStoreGet rest = []"
    by (cases "transport env (length (trace w)) url")
      (simp_all add: Fetch_def httpExchange_def newEvents_def Let_def Cache_Set_def Store_Put_def
        split: sum.splits option.splits)
  show "\<exists>rest. newEvents w (snd (FetchWithFinalURL env hc w url)) =
       HttpGet url (transport env (length (trace w)) url) # rest \<and> filter isStoreGet rest = []"
    by (cases "transport env (length (trace w)) url")
      (simp_all add: FetchWithFinalURL_def httpExchange_def newEvents_def Let_def Cache_Set_def
        Store_Put_def split: sum.splits option.splits)
next
  assume "transport env (length (trace w)) url = Response finalURL body \<and>
    0 < GetTTL (cache hc) url \<and> storeErr env (Suc (length (trace w))) = None"
    and "accepts validator body \<and>
       ObjectToBytes env
         \<lparr>Data = body, URL = url, FinalURL = [],
          CrawledAt = clock env (Suc (length (trace w))),
          ExpiresAt = clock env (Suc (length (trace w))) + GetTTL (cache hc) url\<rparr> = Inr encoded"
  then show "Fetch env hc w url validator =
            ((Some body, None),
             w\<lparr>db := (db w)(hashKey env url \<mapsto> encoded),
               trace := trace w @ [HttpGet url (Response finalURL body),
                                   StorePut (hashKey env url) encoded]\<rparr>)"
    by (simp add: Fetch_def httpExchange_def Let_def Cache_Set_def Store_Put_def time_Now_def
        time_Add_def)
next
  assume "transport env (length (trace w)) url = Response finalURL body \<and>
    0 < GetTTL (cache hc) url \<and> storeErr env (Suc (length (trace w))) = None"
    and "ObjectToBytes env
         \<lparr>Data = body, URL = url, FinalURL = finalURL,
          CrawledAt = clock env (Suc (length (trace w))),
          ExpiresAt = clock env (Suc (length (trace w))) + GetTTL (cache hc) url\<rparr> = Inr encoded"
  then show "FetchWithFinalURL env hc w url =
            ((Some body, finalURL, None),
             w\<lparr>db := (db w)(hashKey env url \<mapsto> encoded),
               trace := trace w @ [HttpGet url (Response finalURL body),
                                   StorePut (hashKey env url) encoded]\<rparr>)"
    by (simp add: FetchWithFinalURL_def httpExchange_def Let_def Cache_Set_def Store_Put_def
        time_Now_def time_Add_def)
qed

text \<open>
  Both entry points over the store that holds a fresh entry for the URL: the
  server is asked and the stored bytes are replaced.
\<close>

theorem C8_witness:
  "Fetch testEnv testClient testWorld ''http://srv/page'' None =
     ((Some ''fresh response'', None),
      \<lparr>db = [''key:http://srv/page'' \<mapsto> ''entry:fresh response''],
       trace = [HttpGet ''http://srv/page'' (Response ''http://srv/final'' ''fresh response''),
                StorePut ''key:http://srv/page'' ''entry:fresh response'']\<rparr>) \<and>
   FetchWithFinalURL testEnv testClient testWorld ''http://srv/page'' =
     ((Some ''fresh response'', ''http://srv/final'', None),
      \<lparr>db = [''key:http://srv/page'' \<mapsto> ''entry:fresh response''],
       trace = [HttpGet ''http://srv/page'' (Response ''http://srv/final'' ''fresh response''),
                StorePut ''key:http://srv/page'' ''entry:fresh response'']\<rparr>) \<and>
   db testWorld ''key:http://srv/page'' = Some ''stored''"
proof -
  note c8 = C8_Fetch_bypasses_cache_read [of testWorld testEnv testClient "''http://srv/page''" None
      "''http://srv/final''" "''fresh response''" "''entry:fresh response''"]
  have pre: "transport testEnv (length (trace testWorld)) ''http://srv/page'' =
        Response ''http://srv/final'' ''fresh response'' \<and>
      0 < GetTTL (cache testClient) ''http://srv/page'' \<and>
      storeErr testEnv (Suc (length (trace testWorld))) = None"
    by (simp add: test_defs)
  note both = mp [OF conjunct2 [OF conjunct2 [OF c8]] pre]
  have enc1: "accepts None ''fresh response'' \<and>
      ObjectToBytes testEnv
         \<lparr>Data = ''fresh response'', URL = ''http://srv/page'', FinalURL = [],
          CrawledAt = clock testEnv (Suc (length (trace testWorld))),
          ExpiresAt = clock testEnv (Suc (length (trace testWorld))) +
            GetTTL (cache testClient) ''http://srv/page''\<rparr> = Inr ''entry:fresh response''"
    by (simp add: accepts_def testEnv_def)
  have enc2: "ObjectToBytes testEnv
         \<lparr>Data = ''fresh response'', URL = ''http://srv/page'', FinalURL = ''http://srv/final'',
          CrawledAt = clock testEnv (Suc (length (trace testWorld))),
          ExpiresAt = clock testEnv (Suc (length (trace testWorld))) +
            GetTTL (cache testClient) ''http://srv/page''\<rparr> = Inr ''entry:fresh response''"
    by (simp add: testEnv_def)
  from mp [OF conjunct1 [OF both] enc1] mp [OF conjunct2 [OF both] enc2]
  show ?thesis
    by (simp add: testWorld_def hashKey_def testEnv_def)
qed

end
